theory Spec2Isabelle
  imports Complex_Main "HOL-Library.Word"
begin

section \<open>JavaScript values as the handlers of server.js see them\<close>

text \<open>
  A JavaScript string is a sequence of UTF-16 code units; \<open>js\<close> writes an ASCII literal.
\<close>

type_synonym jsstring = "16 word list"

definition js :: "string \<Rightarrow> jsstring" where
  "js s = map of_char s"

text \<open>
  A Number is a binary64 value: a finite value, an infinity or NaN. A finite value is
  the rational that it denotes; \<open>-0\<close> is not told apart from \<open>0\<close>, which none of the
  handlers can observe. Comparisons are exact. Addition, subtraction and multiplication
  round their exact result to binary64 with \<open>round64\<close>.
\<close>

datatype jsnum = Fin rat | PosInf | NegInf | NaN

fun isFinite :: "jsnum \<Rightarrow> bool" where
  "isFinite (Fin _) = True"
| "isFinite _ = False"

subsection \<open>Rounding to binary64\<close>

text \<open>The integer nearest to \<open>x\<close>; of two equally near ones the even one.\<close>

definition round_half_even :: "rat \<Rightarrow> int" where
  "round_half_even x =
     (let n = \<lfloor>x\<rfloor>
      in if x - of_int n < 1 / 2 \<or> (x - of_int n = 1 / 2 \<and> even n) then n else n + 1)"

text \<open>The number of binary digits of \<open>n\<close>.\<close>

fun bit_length :: "nat \<Rightarrow> nat" where
  "bit_length n = (if n = 0 then 0 else Suc (bit_length (n div 2)))"

declare bit_length.simps [simp del]

text \<open>For \<open>q > 0\<close>, the \<open>k\<close> with \<open>2 powi k \<le> q < 2 powi (k + 1)\<close>.\<close>

definition ilog2 :: "rat \<Rightarrow> int" where
  "ilog2 q = (if 1 \<le> q then int (bit_length (nat \<lfloor>q\<rfloor>)) - 1
              else - int (bit_length (nat \<lceil>1 / q\<rceil> - 1)))"

text \<open>
  The exponent of the last place of the binary64 values around \<open>q > 0\<close>: 53 significant
  binary digits, and never below the exponent -1074 of the subnormal values.
\<close>

definition exponent_of :: "rat \<Rightarrow> int" where
  "exponent_of q = max (ilog2 q - 52) (- 1074)"

text \<open>For \<open>q > 0\<close>, the multiple of \<open>2 powi exponent_of q\<close> nearest to \<open>q\<close>, ties to even.\<close>

definition round_magnitude :: "rat \<Rightarrow> rat" where
  "round_magnitude q =
     of_int (round_half_even (q / 2 powi exponent_of q)) * 2 powi exponent_of q"

text \<open>
  The binary64 value of an exact result: round to nearest, ties to even; a magnitude
  that rounds to \<open>2 ^ 1024\<close> or above is an infinity.
\<close>

definition round64 :: "rat \<Rightarrow> jsnum" where
  "round64 q =
     (if q = 0 then Fin 0
      else if 0 < q
      then (if 2 ^ 1024 \<le> round_magnitude q then PosInf else Fin (round_magnitude q))
      else (if 2 ^ 1024 \<le> round_magnitude (- q) then NegInf
            else Fin (- round_magnitude (- q))))"

subsection \<open>Comparison and arithmetic\<close>

text \<open>\<open>a > b\<close>; every comparison with NaN is false.\<close>

fun js_gt :: "jsnum \<Rightarrow> jsnum \<Rightarrow> bool" where
  "js_gt (Fin a) (Fin b) = (b < a)"
| "js_gt NaN _ = False"
| "js_gt _ NaN = False"
| "js_gt PosInf b = (b \<noteq> PosInf)"
| "js_gt NegInf _ = False"
| "js_gt (Fin _) PosInf = False"
| "js_gt (Fin _) NegInf = True"

definition js_lt :: "jsnum \<Rightarrow> jsnum \<Rightarrow> bool" where
  "js_lt a b = js_gt b a"

definition js_le :: "jsnum \<Rightarrow> jsnum \<Rightarrow> bool" where
  "js_le a b = (a \<noteq> NaN \<and> b \<noteq> NaN \<and> \<not> js_gt a b)"

definition js_ge :: "jsnum \<Rightarrow> jsnum \<Rightarrow> bool" where
  "js_ge a b = js_le b a"

fun js_neg :: "jsnum \<Rightarrow> jsnum" where
  "js_neg (Fin a) = Fin (- a)"
| "js_neg PosInf = NegInf"
| "js_neg NegInf = PosInf"
| "js_neg NaN = NaN"

text \<open>\<open>a + b\<close>\<close>

fun js_add :: "jsnum \<Rightarrow> jsnum \<Rightarrow> jsnum" where
  "js_add (Fin a) (Fin b) = round64 (a + b)"
| "js_add NaN _ = NaN"
| "js_add _ NaN = NaN"
| "js_add PosInf NegInf = NaN"
| "js_add NegInf PosInf = NaN"
| "js_add PosInf _ = PosInf"
| "js_add NegInf _ = NegInf"
| "js_add (Fin _) b = b"

text \<open>\<open>a - b\<close>, which is \<open>a + (-b)\<close> in binary64\<close>

definition js_sub :: "jsnum \<Rightarrow> jsnum \<Rightarrow> jsnum" where
  "js_sub a b = js_add a (js_neg b)"

text \<open>\<open>a * b\<close>\<close>

fun js_mul :: "jsnum \<Rightarrow> jsnum \<Rightarrow> jsnum" where
  "js_mul (Fin a) (Fin b) = round64 (a * b)"
| "js_mul NaN _ = NaN"
| "js_mul _ NaN = NaN"
| "js_mul (Fin a) PosInf = (if a = 0 then NaN else if 0 < a then PosInf else NegInf)"
| "js_mul (Fin a) NegInf = (if a = 0 then NaN else if 0 < a then NegInf else PosInf)"
| "js_mul PosInf (Fin b) = (if b = 0 then NaN else if 0 < b then PosInf else NegInf)"
| "js_mul NegInf (Fin b) = (if b = 0 then NaN else if 0 < b then NegInf else PosInf)"
| "js_mul PosInf PosInf = PosInf"
| "js_mul PosInf NegInf = NegInf"
| "js_mul NegInf PosInf = NegInf"
| "js_mul NegInf NegInf = PosInf"

text \<open>\<open>Math.floor\<close>\<close>

fun js_floor :: "jsnum \<Rightarrow> jsnum" where
  "js_floor (Fin a) = Fin (of_int \<lfloor>a\<rfloor>)"
| "js_floor PosInf = PosInf"
| "js_floor NegInf = NegInf"
| "js_floor NaN = NaN"

text \<open>\<open>Math.abs\<close>\<close>

fun js_abs :: "jsnum \<Rightarrow> jsnum" where
  "js_abs (Fin a) = Fin \<bar>a\<bar>"
| "js_abs PosInf = PosInf"
| "js_abs NegInf = PosInf"
| "js_abs NaN = NaN"

text \<open>
  A field of a parsed JSON body. An absent field reads as \<open>undefined\<close>. An array or an
  object is \<open>JObj s\<close>, where \<open>s\<close> is the string it converts to: the handlers only test
  such a value for truth and convert it with \<open>String\<close> and \<open>Number\<close>.
\<close>

datatype jsval = JUndefined | JNull | JBool bool | JNum jsnum | JStr jsstring | JObj jsstring

text \<open>
  The two conversions of the language that are not written out here, Number to String
  and String to Number, are parameters of the model.
\<close>

record runtime =
  num2str :: "jsnum \<Rightarrow> jsstring"
  str2num :: "jsstring \<Rightarrow> jsnum"

text \<open>Truthiness, as \<open>!x\<close> and \<open>x || y\<close> test it.\<close>

fun ToBoolean :: "jsval \<Rightarrow> bool" where
  "ToBoolean JUndefined = False"
| "ToBoolean JNull = False"
| "ToBoolean (JBool b) = b"
| "ToBoolean (JNum n) = (n \<noteq> NaN \<and> n \<noteq> Fin 0)"
| "ToBoolean (JStr s) = (s \<noteq> [])"
| "ToBoolean (JObj _) = True"

text \<open>\<open>String(x)\<close>\<close>

fun ToString :: "runtime \<Rightarrow> jsval \<Rightarrow> jsstring" where
  "ToString rt JUndefined = js ''undefined''"
| "ToString rt JNull = js ''null''"
| "ToString rt (JBool b) = (if b then js ''true'' else js ''false'')"
| "ToString rt (JNum n) = num2str rt n"
| "ToString rt (JStr s) = s"
| "ToString rt (JObj s) = s"

text \<open>\<open>Number(x)\<close>\<close>

fun ToNumber :: "runtime \<Rightarrow> jsval \<Rightarrow> jsnum" where
  "ToNumber rt JUndefined = NaN"
| "ToNumber rt JNull = Fin 0"
| "ToNumber rt (JBool b) = (if b then Fin 1 else Fin 0)"
| "ToNumber rt (JNum n) = n"
| "ToNumber rt (JStr s) = str2num rt s"
| "ToNumber rt (JObj s) = str2num rt s"

text \<open>\<open>x || d\<close> with a string default\<close>

definition or_else :: "jsval \<Rightarrow> jsstring \<Rightarrow> jsval" where
  "or_else x d = (if ToBoolean x then x else JStr d)"

text \<open>The decimal digits of a non-negative integer, as a template literal prints it.\<close>

fun dec :: "nat \<Rightarrow> jsstring" where
  "dec n = (if n < 10 then [of_nat (48 + n)] else dec (n div 10) @ [of_nat (48 + n mod 10)])"

declare dec.simps [simp del]

text \<open>
  \<open>String(n)\<close> for a Number \<open>n\<close> that \<open>Math.floor\<close> returned: below \<open>10 ^ 21\<close> in magnitude
  all its digits are written.
\<close>

fun integer_string :: "jsnum \<Rightarrow> jsstring" where
  "integer_string (Fin q) =
     (if q < 0 then js ''-'' @ dec (nat (- \<lfloor>q\<rfloor>)) else dec (nat \<lfloor>q\<rfloor>))"
| "integer_string PosInf = js ''Infinity''"
| "integer_string NegInf = js ''-Infinity''"
| "integer_string NaN = js ''NaN''"

text \<open>\<open>s.slice(-n)\<close>: the last \<open>n\<close> code units, the whole string when it is shorter.\<close>

definition slice_last :: "nat \<Rightarrow> jsstring \<Rightarrow> jsstring" where
  "slice_last n s = drop (length s - n) s"

text \<open>
  The class \<open>\s\<close> of a regular expression: the white space and line terminator code
  points of ECMAScript.
\<close>

definition is_space :: "16 word \<Rightarrow> bool" where
  "is_space c \<longleftrightarrow>
     c \<in> {0x9, 0xA, 0xB, 0xC, 0xD, 0x20, 0xA0, 0x1680, 0x2028, 0x2029, 0x202F, 0x205F,
          0x3000, 0xFEFF}
     \<or> (0x2000 \<le> c \<and> c \<le> 0x200A)"

text \<open>
  \<open>s.replace(/\s+/g, '')\<close>: scanning from the left, every maximal run of white space is
  replaced by the empty string.
\<close>

function replace_spaces :: "jsstring \<Rightarrow> jsstring" where
  "replace_spaces [] = []"
| "replace_spaces (c # cs) =
     (if is_space c then replace_spaces (dropWhile is_space cs) else c # replace_spaces cs)"
  by pat_completeness auto
termination
  by (relation "measure length") (auto simp: less_Suc_eq_le length_dropWhile_le)

section \<open>The data model: the Account and Transaction schemas\<close>

record card_info =
  cardNumber :: jsstring
  expMonth :: jsstring
  expYear :: jsstring
  cvv :: jsstring

record account =
  accountNumber :: jsstring
  ownerName :: jsstring
  balance :: jsnum
  currency :: jsstring
  card_info :: card_info

datatype entry_type = Debit | Credit

datatype entry_source = Account_payment | Card_payment | Manual_topup

text \<open>A ledger entry, with the values that are handed to \<open>Transaction.create\<close>.\<close>

record transaction =
  tx_accountNumber :: jsstring
  tx_type :: entry_type
  tx_amount :: jsnum
  tx_currency :: jsval
  tx_description :: jsval
  tx_source :: entry_source
  tx_transactionId :: "jsstring option"
  tx_balanceAfter :: jsnum
  tx_merchantName :: jsval

text \<open>What \<open>console.error\<close> receives.\<close>

datatype log_event = Handler_error | Ledger_write_failed

text \<open>
  The two collections and the console. A document is identified by its position in
  its collection, which stands for its \<open>_id\<close>.
\<close>

record world =
  accounts :: "account list"
  transactions :: "transaction list"
  console :: "log_event list"

text \<open>
  What the surroundings decide during one request: whether each store operation
  succeeds or throws, and what \<open>Date.now()\<close> returns.
\<close>

record io =
  findOne_ok :: bool
  save_ok :: bool
  create_ok :: bool
  now :: nat

definition allowedCurrencies :: "jsstring list" where
  "allowedCurrencies = [js ''USD'', js ''MXN'', js ''JPY'']"

text \<open>\<open>Model.findOne\<close>: the first document that matches, with its position.\<close>

fun findOne :: "('a \<Rightarrow> bool) \<Rightarrow> 'a list \<Rightarrow> (nat \<times> 'a) option" where
  "findOne P [] = None"
| "findOne P (x # xs) =
     (if P x then Some (0, x)
      else case findOne P xs of None \<Rightarrow> None | Some (i, a) \<Rightarrow> Some (Suc i, a))"

text \<open>
  \<open>doc.save()\<close> writes the paths of the document that were modified since it was
  loaded; the handlers assign to \<open>balance\<close> and \<open>currency\<close> only.
\<close>

definition save :: "nat \<Rightarrow> account \<Rightarrow> account \<Rightarrow> world \<Rightarrow> world" where
  "save i loaded doc w =
     (let stored = accounts w ! i;
          stored1 = (if balance doc \<noteq> balance loaded
                     then stored\<lparr>balance := balance doc\<rparr> else stored);
          stored2 = (if currency doc \<noteq> currency loaded
                     then stored1\<lparr>currency := currency doc\<rparr> else stored1)
      in w\<lparr>accounts := (accounts w)[i := stored2]\<rparr>)"

definition console_error :: "log_event \<Rightarrow> world \<Rightarrow> world" where
  "console_error e w = w\<lparr>console := console w @ [e]\<rparr>"

text \<open>
  \<open>generateCardForAccount\<close>; the two results of \<open>Math.random()\<close>, which are at least 0
  and below 1, and the current year are arguments.
\<close>

definition generateCardForAccount :: "rat \<Rightarrow> nat \<Rightarrow> rat \<Rightarrow> card_info" where
  "generateCardForAccount random1 fullYear random2 =
     (let prefix = js ''411111'';
          random = integer_string
            (js_floor (js_add (Fin 1000000000) (js_mul (Fin random1) (Fin 9000000000))));
          cardNumber = take 16 (prefix @ random);
          expYearFull = fullYear + 3;
          expMonth = js ''12'';
          expYear = slice_last 2 (dec expYearFull);
          cvv = integer_string (js_floor (js_add (Fin 100) (js_mul (Fin random2) (Fin 900))))
      in \<lparr>cardNumber = cardNumber, expMonth = expMonth, expYear = expYear, cvv = cvv\<rparr>)"

text \<open>
  \<open>registerTransaction\<close>: a failure of \<open>Transaction.create\<close> is caught and written to
  the console; the function returns normally either way.
\<close>

definition registerTransaction :: "io \<Rightarrow> transaction \<Rightarrow> world \<Rightarrow> world" where
  "registerTransaction io entry w =
     (if create_ok io then w\<lparr>transactions := transactions w @ [entry]\<rparr>
      else console_error Ledger_write_failed w)"

section \<open>Requests, failures and results\<close>

text \<open>The body fields that each handler destructures.\<close>

record pay_request =
  q_accountNumber :: jsval
  q_amount :: jsval
  q_currency :: jsval
  q_description :: jsval
  q_merchantName :: jsval

record card_request =
  c_cardNumber :: jsval
  c_expMonth :: jsval
  c_expYear :: jsval
  c_cvv :: jsval
  c_amount :: jsval
  c_currency :: jsval
  c_description :: jsval
  c_merchantName :: jsval

record patch_request =
  u_currency :: jsval
  u_balance :: jsval
  u_addBalance :: jsval

text \<open>
  Every response that is not a success, named after the spec's taxonomy; the status
  code and the message of the source are given by \<open>http_status\<close> and in the comments.
\<close>

datatype error =
    MissingFields \<comment> \<open>400 Faltan datos obligatorios: accountNumber y amount.\<close>
  | AccountNotFound \<comment> \<open>404 Cuenta no encontrada.\<close>
  | InvalidAmount \<comment> \<open>400 Monto invalido.\<close>
  | InternalPaymentError \<comment> \<open>500 Error interno al procesar el pago.\<close>
  | MissingCardFields \<comment> \<open>400 Faltan datos obligatorios para el pago con tarjeta.\<close>
  | CardNotFound \<comment> \<open>404 Tarjeta no encontrada.\<close>
  | CardAuthenticationFailed \<comment> \<open>400 Datos de tarjeta invalidos.\<close>
  | InternalCardPaymentError \<comment> \<open>500 Error interno al procesar el pago con tarjeta.\<close>
  | UnsupportedCurrency \<comment> \<open>400 Moneda no soportada. Usa USD, MXN o JPY.\<close>
  | BothBalanceFields \<comment> \<open>400 Usa "balance" (establecer) o "addBalance" (sumar), no ambos.\<close>
  | InvalidBalance \<comment> \<open>400 Saldo invalido.\<close>
  | InvalidTopup \<comment> \<open>400 Monto de recarga invalido.\<close>
  | UpdateFailed \<comment> \<open>500 No se pudo actualizar la cuenta.\<close>

fun http_status :: "error \<Rightarrow> nat" where
  "http_status MissingFields = 400"
| "http_status AccountNotFound = 404"
| "http_status InvalidAmount = 400"
| "http_status InternalPaymentError = 500"
| "http_status MissingCardFields = 400"
| "http_status CardNotFound = 404"
| "http_status CardAuthenticationFailed = 400"
| "http_status InternalCardPaymentError = 500"
| "http_status UnsupportedCurrency = 400"
| "http_status BothBalanceFields = 400"
| "http_status InvalidBalance = 400"
| "http_status InvalidTopup = 400"
| "http_status UpdateFailed = 500"

datatype pay_status = Approved | Declined

text \<open>
  The object of \<open>res.json\<close> on a completed payment. \<open>r_cardLast4\<close> is \<open>None\<close> where the
  object has no such key (payments by account number).
\<close>

record payment_result =
  r_status :: pay_status
  r_transactionId :: jsstring
  r_message :: jsstring
  r_amount :: jsnum
  r_currency :: jsval
  r_description :: jsval
  r_accountNumber :: jsstring
  r_cardLast4 :: "jsstring option"
  r_remainingBalance :: jsnum

section \<open>POST /api/payments\<close>

definition post_payments ::
  "runtime \<Rightarrow> io \<Rightarrow> pay_request \<Rightarrow> world \<Rightarrow> (error + payment_result) \<times> world" where
  "post_payments rt io req w =
     (if \<not> ToBoolean (q_accountNumber req) \<or> q_amount req = JUndefined \<or> q_amount req = JNull
      then (Inl MissingFields, w)
      else if \<not> findOne_ok io then (Inl InternalPaymentError, console_error Handler_error w)
      else case findOne (\<lambda>a. accountNumber a = ToString rt (q_accountNumber req)) (accounts w) of
        None \<Rightarrow> (Inl AccountNotFound, w)
      | Some (i, loaded) \<Rightarrow>
          let numericAmount = ToNumber rt (q_amount req) in
          if \<not> isFinite numericAmount \<or> js_le numericAmount (Fin 0)
          then (Inl InvalidAmount, w)
          else
            let status = (if js_gt numericAmount (balance loaded) then Declined else Approved);
                reason = (if js_gt numericAmount (balance loaded)
                          then js ''Fondos insuficientes en la cuenta.'' else js ''Pago aprobado.'');
                account = (if status = Approved
                           then loaded\<lparr>balance := js_sub (balance loaded) numericAmount\<rparr>
                           else loaded)
            in if status = Approved \<and> \<not> save_ok io
               then (Inl InternalPaymentError, console_error Handler_error w)
               else
                 let w1 = (if status = Approved then save i loaded account w else w);
                     transactionId = js ''POVY-'' @ dec (now io);
                     w2 = registerTransaction io
                            \<lparr>tx_accountNumber = accountNumber account,
                             tx_type = (if status = Approved then Debit else Debit),
                             tx_amount = numericAmount,
                             tx_currency = or_else (q_currency req) (currency account),
                             tx_description = or_else (q_description req)
                               (js ''Pago de prueba por n'' @ [0xFA] @ js ''mero de cuenta''),
                             tx_source = Account_payment,
                             tx_transactionId = Some transactionId,
                             tx_balanceAfter = balance account,
                             tx_merchantName = or_else (q_merchantName req) (js ''Povy Test'')\<rparr>
                            w1
                 in (Inr \<lparr>r_status = status,
                          r_transactionId = transactionId,
                          r_message = reason,
                          r_amount = numericAmount,
                          r_currency = or_else (q_currency req) (currency account),
                          r_description = or_else (q_description req) (js ''Pago de prueba''),
                          r_accountNumber = accountNumber account,
                          r_cardLast4 = None,
                          r_remainingBalance = balance account\<rparr>, w2))"

section \<open>POST /api/payments/card\<close>

definition cleanCardNumber :: "runtime \<Rightarrow> jsval \<Rightarrow> jsstring" where
  "cleanCardNumber rt v = replace_spaces (ToString rt v)"

definition post_payments_card ::
  "runtime \<Rightarrow> io \<Rightarrow> card_request \<Rightarrow> world \<Rightarrow> (error + payment_result) \<times> world" where
  "post_payments_card rt io req w =
     (if \<not> ToBoolean (c_cardNumber req) \<or> \<not> ToBoolean (c_expMonth req)
         \<or> \<not> ToBoolean (c_expYear req) \<or> \<not> ToBoolean (c_cvv req)
         \<or> c_amount req = JUndefined \<or> c_amount req = JNull
      then (Inl MissingCardFields, w)
      else if \<not> findOne_ok io then (Inl InternalCardPaymentError, console_error Handler_error w)
      else case findOne (\<lambda>a. cardNumber (card_info a) = cleanCardNumber rt (c_cardNumber req))
                  (accounts w) of
        None \<Rightarrow> (Inl CardNotFound, w)
      | Some (i, loaded) \<Rightarrow>
          if expMonth (card_info loaded) \<noteq> ToString rt (c_expMonth req)
             \<or> expYear (card_info loaded) \<noteq> ToString rt (c_expYear req)
             \<or> cvv (card_info loaded) \<noteq> ToString rt (c_cvv req)
          then (Inl CardAuthenticationFailed, w)
          else
            let numericAmount = ToNumber rt (c_amount req) in
            if \<not> isFinite numericAmount \<or> js_le numericAmount (Fin 0)
            then (Inl InvalidAmount, w)
            else
              let status = (if js_gt numericAmount (balance loaded) then Declined else Approved);
                  reason = (if js_gt numericAmount (balance loaded)
                            then js ''Fondos insuficientes en la cuenta.'' else js ''Pago aprobado.'');
                  account = (if status = Approved
                             then loaded\<lparr>balance := js_sub (balance loaded) numericAmount\<rparr>
                             else loaded)
              in if status = Approved \<and> \<not> save_ok io
                 then (Inl InternalCardPaymentError, console_error Handler_error w)
                 else
                   let w1 = (if status = Approved then save i loaded account w else w);
                       transactionId = js ''POVY-CARD-'' @ dec (now io);
                       w2 = registerTransaction io
                              \<lparr>tx_accountNumber = accountNumber account,
                               tx_type = (if status = Approved then Debit else Debit),
                               tx_amount = numericAmount,
                               tx_currency = or_else (c_currency req) (currency account),
                               tx_description = or_else (c_description req)
                                 (js ''Pago de prueba con tarjeta''),
                               tx_source = Card_payment,
                               tx_transactionId = Some transactionId,
                               tx_balanceAfter = balance account,
                               tx_merchantName = or_else (c_merchantName req) (js ''Povy Test'')\<rparr>
                              w1
                   in (Inr \<lparr>r_status = status,
                            r_transactionId = transactionId,
                            r_message = reason,
                            r_amount = numericAmount,
                            r_currency = or_else (c_currency req) (currency account),
                            r_description = or_else (c_description req)
                              (js ''Pago de prueba con tarjeta''),
                            r_accountNumber = accountNumber account,
                            r_cardLast4 = Some (slice_last 4 (cardNumber (card_info account))),
                            r_remainingBalance = balance account\<rparr>, w2))"

section \<open>PATCH /api/accounts/:accountNumber\<close>

text \<open>
  \<open>if (currency) { if (!allowedCurrencies.includes(currency)) return 400;
  account.currency = currency }\<close>
\<close>

definition assign_currency :: "jsval \<Rightarrow> account \<Rightarrow> error + account" where
  "assign_currency v a =
     (if ToBoolean v
      then (case v of
              JStr s \<Rightarrow> if s \<in> set allowedCurrencies then Inr (a\<lparr>currency := s\<rparr>)
                        else Inl UnsupportedCurrency
            | _ \<Rightarrow> Inl UnsupportedCurrency)
      else Inr a)"

definition patch_account ::
  "runtime \<Rightarrow> io \<Rightarrow> jsstring \<Rightarrow> patch_request \<Rightarrow> world \<Rightarrow> (error + account) \<times> world" where
  "patch_account rt io accountNo req w =
     (if \<not> findOne_ok io then (Inl UpdateFailed, console_error Handler_error w)
      else case findOne (\<lambda>a. accountNumber a = accountNo) (accounts w) of
        None \<Rightarrow> (Inl AccountNotFound, w)
      | Some (i, loaded) \<Rightarrow>
          (case assign_currency (u_currency req) loaded of
             Inl e \<Rightarrow> (Inl e, w)
           | Inr account \<Rightarrow>
               if u_balance req \<noteq> JUndefined \<and> u_addBalance req \<noteq> JUndefined
               then (Inl BothBalanceFields, w)
               else if u_balance req \<noteq> JUndefined
               then
                 let numericBalance = ToNumber rt (u_balance req) in
                 if \<not> isFinite numericBalance \<or> js_lt numericBalance (Fin 0)
                 then (Inl InvalidBalance, w)
                 else
                   let account = account\<lparr>balance := numericBalance\<rparr> in
                   if \<not> save_ok io then (Inl UpdateFailed, console_error Handler_error w)
                   else (Inr account, save i loaded account w)
               else if u_addBalance req \<noteq> JUndefined
               then
                 let numericAdd = ToNumber rt (u_addBalance req) in
                 if \<not> isFinite numericAdd then (Inl InvalidTopup, w)
                 else
                   let account = account\<lparr>balance := js_add (balance account) numericAdd\<rparr> in
                   if \<not> save_ok io then (Inl UpdateFailed, console_error Handler_error w)
                   else
                     (Inr account,
                      registerTransaction io
                        \<lparr>tx_accountNumber = accountNumber account,
                         tx_type = (if js_ge numericAdd (Fin 0) then Credit else Debit),
                         tx_amount = js_abs numericAdd,
                         tx_currency = JStr (currency account),
                         tx_description = JStr (js ''Ajuste manual de saldo (recarga ficticia)''),
                         tx_source = Manual_topup,
                         tx_transactionId = None,
                         tx_balanceAfter = balance account,
                         tx_merchantName = JStr (js ''Povy Test'')\<rparr>
                        (save i loaded account w))
               else if \<not> save_ok io then (Inl UpdateFailed, console_error Handler_error w)
               else (Inr account, save i loaded account w)))"

section \<open>Requests that overlap in time\<close>

text \<open>
  The handler of POST /api/payments gives up control at each \<open>await\<close>, and another
  request may run there. Each store operation is one step of a task: the read of
  \<open>Account.findOne\<close>, the write of \<open>account.save()\<close> with the code before it, and the
  insert of \<open>registerTransaction\<close> with the response.
\<close>

datatype task =
    Start pay_request
  | Loaded pay_request nat account
  | Settled pay_request account pay_status
  | Finished "error + payment_result"

fun step :: "runtime \<Rightarrow> io \<Rightarrow> task \<Rightarrow> world \<Rightarrow> task \<times> world" where
  "step rt io (Start req) w =
     (if \<not> ToBoolean (q_accountNumber req) \<or> q_amount req = JUndefined \<or> q_amount req = JNull
      then (Finished (Inl MissingFields), w)
      else if \<not> findOne_ok io
      then (Finished (Inl InternalPaymentError), console_error Handler_error w)
      else case findOne (\<lambda>a. accountNumber a = ToString rt (q_accountNumber req)) (accounts w) of
        None \<Rightarrow> (Finished (Inl AccountNotFound), w)
      | Some (i, loaded) \<Rightarrow> (Loaded req i loaded, w))"
| "step rt io (Loaded req i loaded) w =
     (let numericAmount = ToNumber rt (q_amount req) in
      if \<not> isFinite numericAmount \<or> js_le numericAmount (Fin 0)
      then (Finished (Inl InvalidAmount), w)
      else
        let status = (if js_gt numericAmount (balance loaded) then Declined else Approved);
            account = (if status = Approved
                       then loaded\<lparr>balance := js_sub (balance loaded) numericAmount\<rparr>
                       else loaded)
        in if status = Approved \<and> \<not> save_ok io
           then (Finished (Inl InternalPaymentError), console_error Handler_error w)
           else (Settled req account status,
                 if status = Approved then save i loaded account w else w))"
| "step rt io (Settled req account status) w =
     (let numericAmount = ToNumber rt (q_amount req);
          reason = (if status = Declined
                    then js ''Fondos insuficientes en la cuenta.'' else js ''Pago aprobado.'');
          transactionId = js ''POVY-'' @ dec (now io);
          w2 = registerTransaction io
                 \<lparr>tx_accountNumber = accountNumber account,
                  tx_type = (if status = Approved then Debit else Debit),
                  tx_amount = numericAmount,
                  tx_currency = or_else (q_currency req) (currency account),
                  tx_description = or_else (q_description req)
                    (js ''Pago de prueba por n'' @ [0xFA] @ js ''mero de cuenta''),
                  tx_source = Account_payment,
                  tx_transactionId = Some transactionId,
                  tx_balanceAfter = balance account,
                  tx_merchantName = or_else (q_merchantName req) (js ''Povy Test'')\<rparr>
                 w
      in (Finished (Inr \<lparr>r_status = status,
                         r_transactionId = transactionId,
                         r_message = reason,
                         r_amount = numericAmount,
                         r_currency = or_else (q_currency req) (currency account),
                         r_description = or_else (q_description req) (js ''Pago de prueba''),
                         r_accountNumber = accountNumber account,
                         r_cardLast4 = None,
                         r_remainingBalance = balance account\<rparr>), w2))"
| "step rt io (Finished r) w = (Finished r, w)"

text \<open>One request alone: its three steps in a row.\<close>

definition run_alone :: "runtime \<Rightarrow> io \<Rightarrow> pay_request \<Rightarrow> world \<Rightarrow> task \<times> world" where
  "run_alone rt io req w =
     (case step rt io (Start req) w of (t1, w1) \<Rightarrow>
      case step rt io t1 w1 of (t2, w2) \<Rightarrow> step rt io t2 w2)"

text \<open>
  Several requests under a schedule: the list names, step by step, the task that
  moves next.
\<close>

fun run :: "runtime \<Rightarrow> io \<Rightarrow> nat list \<Rightarrow> task list \<times> world \<Rightarrow> task list \<times> world" where
  "run rt io [] cfg = cfg"
| "run rt io (k # ks) (ts, w) =
     (if k < length ts
      then (case step rt io (ts ! k) w of (t, w') \<Rightarrow> run rt io ks (ts[k := t], w'))
      else run rt io ks (ts, w))"

fun task_status :: "task \<Rightarrow> pay_status option" where
  "task_status (Finished (Inr r)) = Some (r_status r)"
| "task_status _ = None"

text \<open>
  No stored balance is below zero, and no task holds a loaded account whose balance is.
\<close>

definition nonnegative :: "world \<Rightarrow> bool" where
  "nonnegative w \<longleftrightarrow> (\<forall>x\<in>set (accounts w). js_ge (balance x) (Fin 0))"

fun task_nonnegative :: "task \<Rightarrow> bool" where
  "task_nonnegative (Loaded req i loaded) = js_ge (balance loaded) (Fin 0)"
| "task_nonnegative _ = True"

section \<open>Two inputs that differ only in white space\<close>

inductive same_but_spaces :: "jsstring \<Rightarrow> jsstring \<Rightarrow> bool" where
  sbs_Nil: "same_but_spaces [] []"
| sbs_Cons: "same_but_spaces xs ys \<Longrightarrow> same_but_spaces (c # xs) (c # ys)"
| sbs_left: "is_space c \<Longrightarrow> same_but_spaces xs ys \<Longrightarrow> same_but_spaces (c # xs) ys"
| sbs_right: "is_space c \<Longrightarrow> same_but_spaces xs ys \<Longrightarrow> same_but_spaces xs (c # ys)"

section \<open>Sample data\<close>

text \<open>
  A runtime for the examples. They pass numbers as numbers and strings as strings,
  where neither conversion is consulted.
\<close>

definition sample_runtime :: runtime where
  "sample_runtime = \<lparr>num2str = (\<lambda>_. js ''NaN''), str2num = (\<lambda>_. NaN)\<rparr>"

definition io_ok :: io where
  "io_ok = \<lparr>findOne_ok = True, save_ok = True, create_ok = True, now = 1700000000000\<rparr>"

text \<open>The same surroundings, where the ledger store refuses the insert.\<close>

definition io_ledger_down :: io where
  "io_ledger_down = io_ok\<lparr>create_ok := False\<rparr>"

definition sample_card :: card_info where
  "sample_card = \<lparr>cardNumber = js ''4111111234567890'', expMonth = js ''12'',
                  expYear = js ''29'', cvv = js ''123''\<rparr>"

definition sample_account :: "rat \<Rightarrow> account" where
  "sample_account b = \<lparr>accountNumber = js ''001-00000042'', ownerName = js ''Usuario de prueba'',
                       balance = Fin b, currency = js ''USD'', card_info = sample_card\<rparr>"

definition sample_world :: "rat \<Rightarrow> world" where
  "sample_world b = \<lparr>accounts = [sample_account b], transactions = [], console = []\<rparr>"

definition sample_payment :: "rat \<Rightarrow> pay_request" where
  "sample_payment a = \<lparr>q_accountNumber = JStr (js ''001-00000042''), q_amount = JNum (Fin a),
                       q_currency = JUndefined, q_description = JUndefined,
                       q_merchantName = JUndefined\<rparr>"

definition sample_card_payment :: "jsstring \<Rightarrow> jsstring \<Rightarrow> rat \<Rightarrow> card_request" where
  "sample_card_payment number code a =
     \<lparr>c_cardNumber = JStr number, c_expMonth = JStr (js ''12''), c_expYear = JStr (js ''29''),
      c_cvv = JStr code, c_amount = JNum (Fin a), c_currency = JUndefined,
      c_description = JUndefined, c_merchantName = JUndefined\<rparr>"

definition sample_patch :: "jsval \<Rightarrow> jsval \<Rightarrow> patch_request" where
  "sample_patch b d = \<lparr>u_currency = JUndefined, u_balance = b, u_addBalance = d\<rparr>"

section \<open>Notions used to state the properties\<close>

text \<open>
  A payment by account number reaches the decision for the document at position \<open>i\<close>:
  the fields are present, the lookup answers with that account, and the amount is a
  finite number above zero.
\<close>

definition reaches_decision ::
  "runtime \<Rightarrow> io \<Rightarrow> pay_request \<Rightarrow> world \<Rightarrow> nat \<Rightarrow> account \<Rightarrow> bool" where
  "reaches_decision rt io req w i a \<longleftrightarrow>
     findOne_ok io \<and> ToBoolean (q_accountNumber req)
     \<and> findOne (\<lambda>x. accountNumber x = ToString rt (q_accountNumber req)) (accounts w) = Some (i, a)
     \<and> isFinite (ToNumber rt (q_amount req)) \<and> js_gt (ToNumber rt (q_amount req)) (Fin 0)"

text \<open>All four card fields of the request are present, as the handler tests them.\<close>

definition card_fields_present :: "card_request \<Rightarrow> bool" where
  "card_fields_present req \<longleftrightarrow>
     ToBoolean (c_cardNumber req) \<and> ToBoolean (c_expMonth req)
     \<and> ToBoolean (c_expYear req) \<and> ToBoolean (c_cvv req)"

text \<open>The account at position \<open>i\<close> is the one that the lookup by card number answers with.\<close>

definition card_resolves :: "runtime \<Rightarrow> card_request \<Rightarrow> world \<Rightarrow> nat \<Rightarrow> account \<Rightarrow> bool" where
  "card_resolves rt req w i a \<longleftrightarrow>
     findOne (\<lambda>x. cardNumber (card_info x) = cleanCardNumber rt (c_cardNumber req)) (accounts w)
       = Some (i, a)"

text \<open>The expiry month, the expiry year and the CVV of the request are those of the card.\<close>

definition card_matches :: "runtime \<Rightarrow> card_request \<Rightarrow> account \<Rightarrow> bool" where
  "card_matches rt req a \<longleftrightarrow>
     expMonth (card_info a) = ToString rt (c_expMonth req)
     \<and> expYear (card_info a) = ToString rt (c_expYear req)
     \<and> cvv (card_info a) = ToString rt (c_cvv req)"

definition card_reaches_decision ::
  "runtime \<Rightarrow> io \<Rightarrow> card_request \<Rightarrow> world \<Rightarrow> nat \<Rightarrow> account \<Rightarrow> bool" where
  "card_reaches_decision rt io req w i a \<longleftrightarrow>
     findOne_ok io \<and> card_fields_present req \<and> card_resolves rt req w i a
     \<and> card_matches rt req a
     \<and> isFinite (ToNumber rt (c_amount req)) \<and> js_gt (ToNumber rt (c_amount req)) (Fin 0)"

text \<open>
  What a completed payment shows: the status and the remaining balance of the
  response, and the balance stored for the document at position \<open>i\<close> after the call.
  \<open>None\<close> when the response is a failure.
\<close>

definition settled_as ::
  "(error + payment_result) \<times> world \<Rightarrow> nat \<Rightarrow> (pay_status \<times> jsnum \<times> jsnum) option" where
  "settled_as res i =
     (case fst res of
        Inl _ \<Rightarrow> None
      | Inr r \<Rightarrow> Some (r_status r, r_remainingBalance r, balance (accounts (snd res) ! i)))"

text \<open>
  A card payment on the loaded account \<open>a\<close> completes: every check of the handler between
  the lookup and the response passes.
\<close>

definition card_payment_completes :: "runtime \<Rightarrow> io \<Rightarrow> card_request \<Rightarrow> account \<Rightarrow> bool" where
  "card_payment_completes rt io req a \<longleftrightarrow>
     findOne_ok io \<and> card_fields_present req
     \<and> c_amount req \<noteq> JUndefined \<and> c_amount req \<noteq> JNull
     \<and> card_matches rt req a
     \<and> isFinite (ToNumber rt (c_amount req)) \<and> \<not> js_le (ToNumber rt (c_amount req)) (Fin 0)
     \<and> (js_gt (ToNumber rt (c_amount req)) (balance a) \<or> save_ok io)"

text \<open>
  The same request for another card: the four card fields are the strings of \<open>c\<close>.
\<close>

definition with_card :: "card_info \<Rightarrow> card_request \<Rightarrow> card_request" where
  "with_card c req =
     req\<lparr>c_cardNumber := JStr (cardNumber c), c_expMonth := JStr (expMonth c),
         c_expYear := JStr (expYear c), c_cvv := JStr (cvv c)\<rparr>"

text \<open>The same world where the account at position \<open>i\<close> holds the card \<open>c\<close>.\<close>

definition reissue :: "nat \<Rightarrow> card_info \<Rightarrow> world \<Rightarrow> world" where
  "reissue i c w = w\<lparr>accounts := (accounts w)[i := (accounts w ! i)\<lparr>card_info := c\<rparr>]\<rparr>"

text \<open>
  A card that can stand for the one of the account at position \<open>i\<close>: its fields are not
  empty, its number has no white space and ends in the four code units \<open>l\<close>, and no
  account before position \<open>i\<close> holds its number.
\<close>

definition card_ending :: "jsstring \<Rightarrow> nat \<Rightarrow> world \<Rightarrow> card_info \<Rightarrow> bool" where
  "card_ending l i w c \<longleftrightarrow>
     cardNumber c \<noteq> [] \<and> expMonth c \<noteq> [] \<and> expYear c \<noteq> [] \<and> cvv c \<noteq> []
     \<and> (\<forall>ch\<in>set (cardNumber c). \<not> is_space ch)
     \<and> slice_last 4 (cardNumber c) = l
     \<and> (\<forall>j<i. cardNumber (card_info (accounts w ! j)) \<noteq> cardNumber c)"

section \<open>Properties of the rounding\<close>

text \<open>
  What the proofs below use of \<open>round64\<close>: it grows with its argument, it keeps every
  integer of magnitude up to \<open>2 ^ 53\<close>, and it keeps the sign.
\<close>

lemma bit_length_bounds:
  "0 < n \<Longrightarrow> 2 ^ (bit_length n - 1) \<le> n \<and> n < 2 ^ bit_length n"
proof (induction n rule: bit_length.induct)
  case (1 n)
  show ?case
  proof (cases "n div 2 = 0")
    case True
    with "1.prems" have "n = 1" by (simp add: div_eq_0_iff)
    then have "bit_length n = 1"
      by (simp add: bit_length.simps [of "Suc 0"] bit_length.simps [of 0])
    with \<open>n = 1\<close> show ?thesis by simp
  next
    case False
    let ?b = "bit_length (n div 2)"
    from False "1.prems" "1.IH"
    have ih: "2 ^ (?b - 1) \<le> n div 2" "n div 2 < 2 ^ ?b" by simp_all
    from False have "?b \<noteq> 0"
      by (subst bit_length.simps) simp
    then obtain c where c: "?b = Suc c" by (cases ?b) simp_all
    from "1.prems" have bl: "bit_length n = Suc ?b"
      by (subst bit_length.simps) simp
    from ih c have "2 * 2 ^ c \<le> 2 * (n div 2)" by simp
    also have "\<dots> \<le> n" by simp
    finally have lo: "2 ^ ?b \<le> n" using c by simp
    from ih have "Suc (n div 2) \<le> 2 ^ ?b" by simp
    then have "2 * Suc (n div 2) \<le> 2 * 2 ^ ?b" by simp
    moreover have "n < 2 * Suc (n div 2)" by simp
    ultimately have hi: "n < 2 ^ Suc ?b" by simp
    from lo hi bl show ?thesis by simp
  qed
qed

lemma ilog2_bounds:
  assumes "0 < q"
  shows "2 powi ilog2 q \<le> q \<and> q < 2 powi (ilog2 q + 1)"
proof (cases "1 \<le> q")
  case True
  define m where "m = nat \<lfloor>q\<rfloor>"
  define j where "j = bit_length m"
  from True have "1 \<le> \<lfloor>q\<rfloor>" by simp
  then have m: "0 < m" and "(of_nat m :: rat) = of_int \<lfloor>q\<rfloor>"
    by (simp_all add: m_def)
  with floor_correct [of q] have mq: "of_nat m \<le> q" "q < of_nat m + 1"
    by simp_all
  from m have j: "0 < j"
    unfolding j_def by (subst bit_length.simps) simp
  from bit_length_bounds [OF m]
  have b: "2 ^ (j - 1) \<le> m" "Suc m \<le> 2 ^ j" by (simp_all add: j_def)
  from True have k: "ilog2 q = int j - 1"
    by (simp add: ilog2_def j_def m_def)
  from b(1) have "(of_nat (2 ^ (j - 1)) :: rat) \<le> of_nat m"
    by (simp only: of_nat_le_iff)
  then have "(2::rat) ^ (j - 1) \<le> of_nat m" by simp
  from this mq(1) have lo: "(2::rat) ^ (j - 1) \<le> q" by (rule order_trans)
  from b(2) have "(of_nat (Suc m) :: rat) \<le> of_nat (2 ^ j)"
    by (simp only: of_nat_le_iff)
  then have "(of_nat m :: rat) + 1 \<le> 2 ^ j" by simp
  with mq(2) have hi: "q < 2 ^ j" by (rule less_le_trans)
  from j have "int j - 1 = int (j - 1)" by simp
  then have p1: "(2::rat) powi (int j - 1) = 2 ^ (j - 1)"
    by (simp only: power_int_of_nat)
  have p2: "(2::rat) powi (int j - 1 + 1) = 2 ^ j" by simp
  from lo hi show ?thesis
    unfolding k p1 p2 by simp
next
  case False
  define c where "c = \<lceil>1 / q\<rceil>"
  define m where "m = nat c - 1"
  define j where "j = bit_length m"
  from False assms have "1 < 1 / q" by simp
  then have c2: "2 \<le> c" by (simp add: le_ceiling_iff c_def)
  then have m: "0 < m" and mc: "int m = c - 1" by (simp_all add: m_def)
  have cq: "1 / q \<le> of_int c" "of_int c - 1 < 1 / q"
    using ceiling_correct [of "1 / q"] unfolding c_def by simp_all
  from m have j: "0 < j"
    unfolding j_def by (subst bit_length.simps) simp
  from bit_length_bounds [OF m]
  have b: "2 ^ (j - 1) \<le> m" "Suc m \<le> 2 ^ j" by (simp_all add: j_def)
  from False have k: "ilog2 q = - int j"
    by (simp add: ilog2_def j_def m_def c_def)
  from b(2) have "int (Suc m) \<le> int (2 ^ j)" by (simp only: of_nat_le_iff)
  with mc have "c \<le> 2 ^ j" by simp
  then have "(of_int c :: rat) \<le> of_int (2 ^ j)" by (simp only: of_int_le_iff)
  then have "(of_int c :: rat) \<le> 2 ^ j" by simp
  with cq(1) have "1 / q \<le> 2 ^ j" by (rule order_trans)
  with assms have lo: "1 / 2 ^ j \<le> q"
    by (simp add: field_simps)
  from b(1) have "int (2 ^ (j - 1)) \<le> int m" by (simp only: of_nat_le_iff)
  with mc have "2 ^ (j - 1) \<le> c - 1" by simp
  then have "(of_int (2 ^ (j - 1)) :: rat) \<le> of_int (c - 1)" by (simp only: of_int_le_iff)
  then have "(2::rat) ^ (j - 1) \<le> of_int c - 1" by simp
  from this cq(2) have "2 ^ (j - 1) < 1 / q" by (rule le_less_trans)
  with assms have hi: "q < 1 / 2 ^ (j - 1)"
    by (simp add: field_simps)
  have p1: "(2::rat) powi (- int j) = 1 / 2 ^ j"
    by (simp add: power_int_minus_divide)
  from j have "- int j + 1 = - int (j - 1)" by simp
  then have p2: "(2::rat) powi (- int j + 1) = 1 / 2 ^ (j - 1)"
    by (simp only: power_int_minus_divide power_int_of_nat)
  from lo hi show ?thesis
    unfolding k p1 p2 by simp
qed

lemma ilog2_less:
  assumes "0 < p" and "p < 2 powi k"
  shows "ilog2 p < k"
proof (rule ccontr)
  assume "\<not> ilog2 p < k"
  then have "(2::rat) powi k \<le> 2 powi ilog2 p"
    by (intro power_int_increasing) simp_all
  with ilog2_bounds [OF assms(1)] assms(2) show False by simp
qed

lemma ilog2_ge:
  assumes "0 < p" and "2 powi k \<le> p"
  shows "k \<le> ilog2 p"
proof (rule ccontr)
  assume "\<not> k \<le> ilog2 p"
  then have "(2::rat) powi (ilog2 p + 1) \<le> 2 powi k"
    by (intro power_int_increasing) simp_all
  with ilog2_bounds [OF assms(1)] assms(2) show False by simp
qed

lemma ilog2_mono:
  assumes "0 < p" and "p \<le> q"
  shows "ilog2 p \<le> ilog2 q"
proof -
  from assms have "0 < q" by simp
  from ilog2_bounds [OF assms(1)] assms(2) have "2 powi ilog2 p \<le> q" by simp
  with \<open>0 < q\<close> show ?thesis by (intro ilog2_ge)
qed


lemma round_half_even_of_int [simp]: "round_half_even (of_int n) = n"
  by (simp add: round_half_even_def)

lemma round_half_even_floor:
  "\<lfloor>x\<rfloor> \<le> round_half_even x \<and> round_half_even x \<le> \<lfloor>x\<rfloor> + 1"
  by (simp add: round_half_even_def Let_def)

lemma round_half_even_lower:
  assumes "of_int m \<le> x"
  shows "m \<le> round_half_even x"
proof -
  from assms have "m \<le> \<lfloor>x\<rfloor>" by (simp add: le_floor_iff)
  with round_half_even_floor [of x] show ?thesis by simp
qed

lemma round_half_even_upper:
  assumes "x \<le> of_int m"
  shows "round_half_even x \<le> m"
proof (cases "x = of_int m")
  case True
  then show ?thesis by simp
next
  case False
  with assms have "x < of_int m" by simp
  then have "\<lfloor>x\<rfloor> < m" by (simp add: floor_less_iff)
  with round_half_even_floor [of x] show ?thesis by simp
qed

lemma round_half_even_mono:
  assumes "x \<le> y"
  shows "round_half_even x \<le> round_half_even y"
proof (cases "\<lfloor>x\<rfloor> = \<lfloor>y\<rfloor>")
  case True
  with assms show ?thesis
    by (auto simp: round_half_even_def Let_def)
next
  case False
  with assms have "\<lfloor>x\<rfloor> < \<lfloor>y\<rfloor>"
    using floor_mono [of x y] by simp
  with round_half_even_floor [of x] round_half_even_floor [of y] show ?thesis by simp
qed

lemma exponent_of_mono: "0 < p \<Longrightarrow> p \<le> q \<Longrightarrow> exponent_of p \<le> exponent_of q"
  using ilog2_mono [of p q] by (simp add: exponent_of_def)

lemma two_powi_pos [simp]: "0 < (2::rat) powi k"
  by (simp add: zero_less_power_int)

lemma two_powi_nat: "0 \<le> k \<Longrightarrow> (2::rat) powi k = of_int (2 ^ nat k)"
  by (simp add: power_int_nonneg_exp)

lemma round_magnitude_nonneg: "0 < q \<Longrightarrow> 0 \<le> round_magnitude q"
proof -
  assume "0 < q"
  then have "of_int 0 \<le> q / 2 powi exponent_of q" by simp
  then have "0 \<le> round_half_even (q / 2 powi exponent_of q)"
    by (rule round_half_even_lower)
  then show ?thesis by (simp add: round_magnitude_def)
qed

lemma round_magnitude_mono:
  assumes "0 < p" and "p \<le> q"
  shows "round_magnitude p \<le> round_magnitude q"
proof (cases "exponent_of p = exponent_of q")
  case True
  from assms have "p / 2 powi exponent_of q \<le> q / 2 powi exponent_of q"
    by (simp add: divide_right_mono)
  then have "round_half_even (p / 2 powi exponent_of q) \<le> round_half_even (q / 2 powi exponent_of q)"
    by (rule round_half_even_mono)
  then have "(of_int (round_half_even (p / 2 powi exponent_of q)) :: rat)
      \<le> of_int (round_half_even (q / 2 powi exponent_of q))"
    by (simp only: of_int_le_iff)
  then show ?thesis
    by (simp add: round_magnitude_def True)
next
  case False
  from assms have q: "0 < q" by simp
  define k where "k = ilog2 q"
  define d where "d = exponent_of p"
  from False exponent_of_mono [OF assms] have lt: "d < exponent_of q"
    by (simp add: d_def)
  have "- 1074 \<le> d" "ilog2 p - 52 \<le> d"
    by (simp_all add: d_def exponent_of_def)
  with lt have e: "exponent_of q = k - 52" and pk: "ilog2 p + 1 \<le> k" and dk: "d < k - 52"
    by (simp_all add: exponent_of_def k_def max_def split: if_splits)
  \<comment> \<open>the smaller one stays at or below \<open>2 powi k\<close>\<close>
  from ilog2_bounds [OF assms(1)] have "p < 2 powi (ilog2 p + 1)" by simp
  also from pk have "\<dots> \<le> 2 powi k" by (intro power_int_increasing) simp_all
  finally have "p / 2 powi d \<le> 2 powi k / 2 powi d"
    by (simp add: divide_right_mono)
  also have "\<dots> = 2 powi (k - d)"
    by (simp add: power_int_diff)
  also from dk have "\<dots> = of_int (2 ^ nat (k - d))"
    by (intro two_powi_nat) simp
  finally have "round_half_even (p / 2 powi d) \<le> 2 ^ nat (k - d)"
    by (rule round_half_even_upper)
  then have "(of_int (round_half_even (p / 2 powi d)) :: rat) \<le> of_int (2 ^ nat (k - d))"
    by (simp only: of_int_le_iff)
  also from dk have "\<dots> = 2 powi (k - d)"
    by (intro two_powi_nat [symmetric]) simp
  finally have "of_int (round_half_even (p / 2 powi d)) * 2 powi d
      \<le> (2::rat) powi (k - d) * 2 powi d"
    by (simp add: mult_right_mono)
  also have "\<dots> = 2 powi k"
    by (simp flip: power_int_add)
  finally have lo: "round_magnitude p \<le> 2 powi k"
    by (simp add: round_magnitude_def d_def)
  \<comment> \<open>the larger one stays at or above it\<close>
  from ilog2_bounds [OF q] have "2 powi k / 2 powi (k - 52) \<le> q / 2 powi (k - 52)"
    by (simp add: divide_right_mono k_def)
  moreover have "(2::rat) powi k / 2 powi (k - 52) = of_int (2 ^ 52)"
    by (simp flip: power_int_diff)
  ultimately have "of_int (2 ^ 52) \<le> q / 2 powi (k - 52)" by simp
  define n where "n = round_half_even (q / 2 powi (k - 52))"
  from \<open>of_int (2 ^ 52) \<le> q / 2 powi (k - 52)\<close> have "2 ^ 52 \<le> n"
    unfolding n_def by (rule round_half_even_lower)
  then have "(of_int (2 ^ 52) :: rat) \<le> of_int n"
    by (simp only: of_int_le_iff)
  then have "(2::rat) ^ 52 \<le> of_int n" by simp
  then have A: "(2::rat) ^ 52 * 2 powi (k - 52) \<le> of_int n * 2 powi (k - 52)"
    by (rule mult_right_mono) simp
  have B: "(2::rat) ^ 52 * 2 powi (k - 52) = 2 powi k"
    using power_int_add [of "2::rat" 52 "k - 52"] by simp
  from A have "(2::rat) powi k \<le> of_int n * 2 powi (k - 52)"
    unfolding B .
  then have hi: "2 powi k \<le> round_magnitude q"
    unfolding round_magnitude_def e n_def .
  from lo hi show ?thesis by simp
qed


lemma round_magnitude_grid:
  assumes "q = of_int m * 2 powi exponent_of q"
  shows "round_magnitude q = q"
proof -
  from assms have "q / 2 powi exponent_of q = of_int m"
    by (simp add: field_simps)
  then have "round_magnitude q = of_int m * 2 powi exponent_of q"
    by (simp add: round_magnitude_def)
  with assms show ?thesis by simp
qed

lemma round_magnitude_int:
  assumes "0 < n" and "n \<le> 2 ^ 53"
  shows "round_magnitude (of_int n) = of_int n"
proof -
  define q :: rat where "q = of_int n"
  define k where "k = ilog2 q"
  from assms(1) have q: "0 < q" "1 \<le> q" by (simp_all add: q_def)
  from q have k0: "0 \<le> k"
    unfolding k_def by (intro ilog2_ge) simp_all
  from assms(2) have "(of_int n :: rat) \<le> of_int (2 ^ 53)"
    by (simp only: of_int_le_iff)
  then have q53: "q \<le> 2 ^ 53" by (simp add: q_def)
  then have "q < 2 powi 54" by simp
  with q(1) have "k < 54"
    unfolding k_def by (rule ilog2_less)
  with k0 have e: "exponent_of q = k - 52"
    by (simp add: exponent_of_def k_def)
  have "\<exists>m. q = of_int m * 2 powi (k - 52)"
  proof (cases "k \<le> 52")
    case True
    have "(2::rat) powi (52 - k) * 2 powi (k - 52) = 1"
      by (simp flip: power_int_add)
    moreover from True have "(2::rat) powi (52 - k) = of_int (2 ^ nat (52 - k))"
      by (intro two_powi_nat) simp
    ultimately have "of_int (n * 2 ^ nat (52 - k)) * 2 powi (k - 52) = q"
      by (simp add: q_def mult.assoc)
    then show ?thesis by metis
  next
    case False
    with \<open>k < 54\<close> have k: "k = 53" by simp
    with ilog2_bounds [OF q(1)] have "2 ^ 53 \<le> q" by (simp add: k_def)
    with q53 have "q = 2 ^ 53" by simp
    then have "q = of_int (2 ^ 52) * 2 powi (k - 52)" by (simp add: k)
    then show ?thesis by blast
  qed
  then obtain m where "q = of_int m * 2 powi exponent_of q"
    by (auto simp: e)
  then have "round_magnitude q = q" by (rule round_magnitude_grid)
  then show ?thesis by (simp add: q_def)
qed

lemma round64_int:
  assumes "\<bar>n\<bar> \<le> 2 ^ 53"
  shows "round64 (of_int n) = Fin (of_int n)"
proof -
  have small: "\<not> (2::rat) ^ 1024 \<le> of_int m" if "m \<le> 2 ^ 53" for m
  proof -
    from that have "(of_int m :: rat) \<le> of_int (2 ^ 53)" by (simp only: of_int_le_iff)
    then have "(of_int m :: rat) \<le> 2 ^ 53" by simp
    moreover have "(2::rat) ^ 53 < 2 ^ 1024" by (rule power_strict_increasing) simp_all
    ultimately show ?thesis by simp
  qed
  consider "n = 0" | "0 < n" | "n < 0" by linarith
  then show ?thesis
  proof cases
    case 1
    then show ?thesis by (simp add: round64_def)
  next
    case 2
    with assms have "n \<le> 2 ^ 53" by simp
    with 2 round_magnitude_int [of n] small [of n] show ?thesis
      by (simp add: round64_def)
  next
    case 3
    with assms have "- n \<le> 2 ^ 53" "0 < - n" by simp_all
    with 3 round_magnitude_int [of "- n"] small [of "- n"] show ?thesis
      by (simp add: round64_def)
  qed
qed

lemma round64_nonneg:
  assumes "0 \<le> q"
  shows "round64 q = PosInf \<or> (\<exists>r. round64 q = Fin r \<and> 0 \<le> r)"
  using assms round_magnitude_nonneg [of q] by (auto simp: round64_def)

lemma round64_upto:
  assumes "0 \<le> q" and "q \<le> of_int b" and "b \<le> 2 ^ 53"
  shows "\<exists>r. round64 q = Fin r \<and> 0 \<le> r \<and> r \<le> of_int b"
proof (cases "q = 0")
  case True
  with assms show ?thesis by (simp add: round64_def)
next
  case False
  with assms have q: "0 < q" by simp
  with assms(2) have "(0::rat) < of_int b" by simp
  then have b: "0 < b" by simp
  from round_magnitude_mono [OF q assms(2)] round_magnitude_int [OF b assms(3)]
  have le: "round_magnitude q \<le> of_int b" by simp
  from assms(3) have "(of_int b :: rat) \<le> of_int (2 ^ 53)" by (simp only: of_int_le_iff)
  then have "(of_int b :: rat) \<le> 2 ^ 53" by simp
  moreover have "(2::rat) ^ 53 < 2 ^ 1024" by (rule power_strict_increasing) simp_all
  ultimately have "\<not> 2 ^ 1024 \<le> round_magnitude q" using le by simp
  with q le round_magnitude_nonneg [OF q] show ?thesis
    by (simp add: round64_def)
qed

lemma round64_between:
  assumes "of_int a \<le> q" and "q \<le> of_int b" and "0 < a" and "b \<le> 2 ^ 53"
  shows "\<exists>r. round64 q = Fin r \<and> of_int a \<le> r \<and> r \<le> of_int b"
proof -
  from assms(1, 3) have q: "0 \<le> q" "(0::rat) < of_int a" by simp_all
  from assms(1, 2) have "(of_int a :: rat) \<le> of_int b" by simp
  then have "a \<le> b" by (simp only: of_int_le_iff)
  with assms(4) have a: "a \<le> 2 ^ 53" by simp
  from round64_upto [OF q(1) assms(2, 4)] obtain r
    where r: "round64 q = Fin r" "r \<le> of_int b" by blast
  from q assms(1) have "q \<noteq> 0" "0 < q" by simp_all
  with r(1) have "r = round_magnitude q"
    by (simp add: round64_def split: if_splits)
  with round_magnitude_mono [OF q(2) assms(1)] round_magnitude_int [OF assms(3) a]
  have "of_int a \<le> r" by simp
  with r show ?thesis by simp
qed

lemma bit_length_57: "bit_length 99999999999999999 = 57"
  by (simp add: bit_length.simps)

lemma round64_absorbed: "round64 99999999999999999 = Fin 100000000000000000"
proof -
  have k: "ilog2 99999999999999999 = 56"
    by (simp add: ilog2_def bit_length_57)
  have e: "exponent_of 99999999999999999 = 4"
    by (simp add: exponent_of_def k)
  have f: "\<lfloor>99999999999999999 / 16 :: rat\<rfloor> = 6249999999999999"
    by (rule floor_unique) simp_all
  have r: "round_half_even (99999999999999999 / 2 powi 4) = 6250000000000000"
    by (simp add: round_half_even_def Let_def f)
  have m: "round_magnitude 99999999999999999 = 100000000000000000"
    unfolding round_magnitude_def e r by simp
  have "\<not> (2::rat) ^ 1024 \<le> 100000000000000000"
  proof -
    have "(100000000000000000::rat) < 2 ^ 57" by simp
    also have "\<dots> < 2 ^ 1024" by (rule power_strict_increasing) simp_all
    finally show ?thesis by simp
  qed
  with m show ?thesis by (simp add: round64_def)
qed

lemma round64_0 [simp]: "round64 0 = Fin 0"
  by (simp add: round64_def)

lemma round64_1 [simp]: "round64 1 = Fin 1"
  using round64_int [of 1] by simp

lemma round64_numeral [simp]:
  "numeral k \<le> (2::int) ^ 53 \<Longrightarrow> round64 (numeral k) = Fin (numeral k)"
  using round64_int [of "numeral k"] by simp

lemma round64_neg_numeral [simp]:
  "numeral k \<le> (2::int) ^ 53 \<Longrightarrow> round64 (- numeral k) = Fin (- numeral k)"
  using round64_int [of "- numeral k"] by simp

section \<open>Store operations\<close>


lemma findOne_Some:
  "findOne P xs = Some (i, a) \<Longrightarrow> i < length xs \<and> xs ! i = a \<and> P a"
proof (induction xs arbitrary: i)
  case Nil
  then show ?case by simp
next
  case (Cons x xs)
  show ?case
  proof (cases "P x")
    case True
    with Cons.prems show ?thesis by simp
  next
    case False
    with Cons.prems obtain j where "findOne P xs = Some (j, a)" and "i = Suc j"
      by (auto split: option.splits)
    with Cons.IH [of j] show ?thesis by simp
  qed
qed

lemma save_transactions [simp]: "transactions (save i l d w) = transactions w"
  by (simp add: save_def Let_def)

lemma save_console [simp]: "console (save i l d w) = console w"
  by (simp add: save_def Let_def)

lemma save_balance_loaded:
  assumes "accounts w ! i = loaded"
  shows "accounts (save i loaded (loaded\<lparr>balance := b\<rparr>) w) = (accounts w)[i := loaded\<lparr>balance := b\<rparr>]"
  using assms by (simp add: save_def Let_def)

lemma registerTransaction_accounts [simp]:
  "accounts (registerTransaction io e w) = accounts w"
  by (simp add: registerTransaction_def console_error_def)

lemma console_error_accounts [simp]: "accounts (console_error e w) = accounts w"
  by (simp add: console_error_def)

lemma console_error_transactions [simp]: "transactions (console_error e w) = transactions w"
  by (simp add: console_error_def)

lemma js_sub_self: "isFinite a \<Longrightarrow> js_sub a a = Fin 0"
  by (cases a) (simp_all add: js_sub_def)

lemma js_le_refl: "isFinite a \<Longrightarrow> js_le a a"
  by (cases a) (simp_all add: js_le_def)

lemma post_payments_declined:
  assumes "reaches_decision rt io req w i a"
    and "js_gt (ToNumber rt (q_amount req)) (balance a)"
  shows "settled_as (post_payments rt io req w) i = Some (Declined, balance a, balance a)
         \<and> accounts (snd (post_payments rt io req w)) = accounts w"
proof -
  from assms(1) have "accounts w ! i = a"
    using findOne_Some unfolding reaches_decision_def by fast
  with assms show ?thesis
    by (auto simp: reaches_decision_def settled_as_def post_payments_def Let_def js_le_def)
qed

lemma post_payments_approved:
  assumes "reaches_decision rt io req w i a"
    and "js_le (ToNumber rt (q_amount req)) (balance a)" "save_ok io"
  shows "settled_as (post_payments rt io req w) i
           = Some (Approved, js_sub (balance a) (ToNumber rt (q_amount req)),
                   js_sub (balance a) (ToNumber rt (q_amount req)))
         \<and> accounts (snd (post_payments rt io req w))
           = (accounts w)[i := a\<lparr>balance := js_sub (balance a) (ToNumber rt (q_amount req))\<rparr>]"
proof -
  from assms(1) have "i < length (accounts w)" "accounts w ! i = a"
    using findOne_Some unfolding reaches_decision_def by fast+
  with assms show ?thesis
    by (auto simp: reaches_decision_def settled_as_def post_payments_def Let_def js_le_def
        save_balance_loaded)
qed

lemma post_payments_card_declined:
  assumes "card_reaches_decision rt io req w i a"
    and "js_gt (ToNumber rt (c_amount req)) (balance a)"
  shows "settled_as (post_payments_card rt io req w) i = Some (Declined, balance a, balance a)
         \<and> accounts (snd (post_payments_card rt io req w)) = accounts w"
proof -
  from assms(1) have "accounts w ! i = a"
    using findOne_Some unfolding card_reaches_decision_def card_resolves_def by fast
  with assms show ?thesis
    by (auto simp: card_reaches_decision_def card_resolves_def card_matches_def
        card_fields_present_def settled_as_def post_payments_card_def Let_def js_le_def)
qed

lemma post_payments_card_approved:
  assumes "card_reaches_decision rt io req w i a"
    and "js_le (ToNumber rt (c_amount req)) (balance a)" "save_ok io"
  shows "settled_as (post_payments_card rt io req w) i
           = Some (Approved, js_sub (balance a) (ToNumber rt (c_amount req)),
                   js_sub (balance a) (ToNumber rt (c_amount req)))
         \<and> accounts (snd (post_payments_card rt io req w))
           = (accounts w)[i := a\<lparr>balance := js_sub (balance a) (ToNumber rt (c_amount req))\<rparr>]"
proof -
  from assms(1) have "i < length (accounts w)" "accounts w ! i = a"
    using findOne_Some unfolding card_reaches_decision_def card_resolves_def by fast+
  with assms show ?thesis
    by (auto simp: card_reaches_decision_def card_resolves_def card_matches_def
        card_fields_present_def settled_as_def post_payments_card_def Let_def js_le_def
        save_balance_loaded)
qed

lemma post_payments_recorded:
  assumes "fst (post_payments rt io req w) = Inr r"
  shows "\<exists>i a. findOne (\<lambda>x. accountNumber x = ToString rt (q_accountNumber req)) (accounts w)
             = Some (i, a)
           \<and> r_accountNumber r = accountNumber (accounts (snd (post_payments rt io req w)) ! i)
           \<and> r_remainingBalance r = balance (accounts (snd (post_payments rt io req w)) ! i)
           \<and> (if create_ok io
               then \<exists>t. transactions (snd (post_payments rt io req w)) = transactions w @ [t]
                        \<and> tx_accountNumber t = r_accountNumber r
                        \<and> tx_balanceAfter t = r_remainingBalance r
               else transactions (snd (post_payments rt io req w)) = transactions w)"
proof (cases "findOne (\<lambda>x. accountNumber x = ToString rt (q_accountNumber req)) (accounts w)")
  case None
  with assms show ?thesis
    by (simp add: post_payments_def split: if_splits)
next
  case (Some p)
  obtain i a where p: "p = (i, a)" by (cases p)
  from Some p have ia: "i < length (accounts w)" "accounts w ! i = a"
    using findOne_Some by fast+
  from assms Some p ia show ?thesis
    by (auto simp: post_payments_def Let_def registerTransaction_def console_error_def
        save_balance_loaded split: if_splits)
qed

lemma post_payments_failed:
  assumes "fst (post_payments rt io req w) = Inl e"
  shows "transactions (snd (post_payments rt io req w)) = transactions w"
    and "accounts (snd (post_payments rt io req w)) = accounts w"
  using assms
  by (auto simp: post_payments_def Let_def split: if_splits option.splits)

lemma post_payments_card_recorded:
  assumes "fst (post_payments_card rt io req w) = Inr r"
  shows "\<exists>i a. card_resolves rt req w i a
           \<and> r_accountNumber r = accountNumber (accounts (snd (post_payments_card rt io req w)) ! i)
           \<and> r_remainingBalance r = balance (accounts (snd (post_payments_card rt io req w)) ! i)
           \<and> (if create_ok io
               then \<exists>t. transactions (snd (post_payments_card rt io req w)) = transactions w @ [t]
                        \<and> tx_accountNumber t = r_accountNumber r
                        \<and> tx_balanceAfter t = r_remainingBalance r
               else transactions (snd (post_payments_card rt io req w)) = transactions w)"
proof (cases "findOne (\<lambda>x. cardNumber (card_info x) = cleanCardNumber rt (c_cardNumber req))
                (accounts w)")
  case None
  with assms show ?thesis
    by (simp add: post_payments_card_def split: if_splits)
next
  case (Some p)
  obtain i a where p: "p = (i, a)" by (cases p)
  from Some p have ia: "i < length (accounts w)" "accounts w ! i = a"
    using findOne_Some by fast+
  from assms Some p ia show ?thesis
    by (auto simp: post_payments_card_def card_resolves_def Let_def registerTransaction_def
        console_error_def save_balance_loaded split: if_splits)
qed

lemma post_payments_card_failed:
  assumes "fst (post_payments_card rt io req w) = Inl e"
  shows "transactions (snd (post_payments_card rt io req w)) = transactions w"
    and "accounts (snd (post_payments_card rt io req w)) = accounts w"
  using assms
  by (auto simp: post_payments_card_def Let_def split: if_splits option.splits)

lemmas sample_defs = sample_runtime_def io_ok_def io_ledger_down_def sample_card_def
  sample_account_def sample_world_def sample_payment_def sample_card_payment_def sample_patch_def

section \<open>The decision of a payment\<close>

lemma js_sub_exact:
  assumes "p - q = of_int n" and "\<bar>n\<bar> \<le> 2 ^ 53"
  shows "js_sub (Fin p) (Fin q) = Fin (p - q)"
  using round64_int [OF assms(2)] assms(1) by (simp add: js_sub_def)

text \<open>
  Claim C1 says that an approved payment leaves exactly \<open>B - A\<close> stored. A balance is a
  binary64 Number: a payment of 1 from a balance of \<open>10 ^ 17\<close> is approved, and the
  subtraction yields \<open>10 ^ 17\<close> again, which is what the response reports and what stays
  stored.
\<close>

theorem payment_decision_counterexample:
  "reaches_decision sample_runtime io_ok (sample_payment 1) (sample_world 100000000000000000) 0
     (sample_account 100000000000000000)
   \<and> js_le (ToNumber sample_runtime (q_amount (sample_payment 1)))
       (balance (sample_account 100000000000000000))
   \<and> settled_as (post_payments sample_runtime io_ok (sample_payment 1)
       (sample_world 100000000000000000)) 0
     = Some (Approved, Fin 100000000000000000, Fin 100000000000000000)
   \<and> Fin 100000000000000000 \<noteq> Fin (100000000000000000 - 1)"
  by (simp add: reaches_decision_def settled_as_def post_payments_def sample_defs Let_def js_def
      js_le_def js_sub_def save_def registerTransaction_def round64_absorbed)

text \<open>
  Claim C1, amended. A payment by account number or by card that reaches the decision,
  on an account with balance \<open>B\<close> and with a finite amount \<open>A > 0\<close>: if \<open>A > B\<close> it is declined
  and the stored accounts are as before, so the balance is still \<open>B\<close>; if \<open>A \<le> B\<close> (and the
  write of the account succeeds) it is approved and the stored balance is the Number
  that the subtraction \<open>B - A\<close> yields, which is exactly \<open>B - A\<close> whenever that difference is
  an integer of magnitude at most \<open>2 ^ 53\<close>; in particular \<open>A = B\<close> is approved and leaves the
  balance 0.
\<close>

theorem payment_decision:
  "(reaches_decision rt io req w i a \<longrightarrow>
      (js_gt (ToNumber rt (q_amount req)) (balance a) \<longrightarrow>
         settled_as (post_payments rt io req w) i = Some (Declined, balance a, balance a)
         \<and> accounts (snd (post_payments rt io req w)) = accounts w)
      \<and> (js_le (ToNumber rt (q_amount req)) (balance a) \<and> save_ok io \<longrightarrow>
         settled_as (post_payments rt io req w) i
           = Some (Approved, js_sub (balance a) (ToNumber rt (q_amount req)),
                   js_sub (balance a) (ToNumber rt (q_amount req))))
      \<and> (js_le (ToNumber rt (q_amount req)) (balance a) \<and> save_ok io
           \<and> balance a = Fin p \<and> ToNumber rt (q_amount req) = Fin q
           \<and> p - q = of_int n \<and> \<bar>n\<bar> \<le> 2 ^ 53 \<longrightarrow>
         settled_as (post_payments rt io req w) i = Some (Approved, Fin (p - q), Fin (p - q)))
      \<and> (ToNumber rt (q_amount req) = balance a \<and> save_ok io \<longrightarrow>
         settled_as (post_payments rt io req w) i = Some (Approved, Fin 0, Fin 0)))
   \<and> (card_reaches_decision rt io creq w j b \<longrightarrow>
      (js_gt (ToNumber rt (c_amount creq)) (balance b) \<longrightarrow>
         settled_as (post_payments_card rt io creq w) j = Some (Declined, balance b, balance b)
         \<and> accounts (snd (post_payments_card rt io creq w)) = accounts w)
      \<and> (js_le (ToNumber rt (c_amount creq)) (balance b) \<and> save_ok io \<longrightarrow>
         settled_as (post_payments_card rt io creq w) j
           = Some (Approved, js_sub (balance b) (ToNumber rt (c_amount creq)),
                   js_sub (balance b) (ToNumber rt (c_amount creq))))
      \<and> (js_le (ToNumber rt (c_amount creq)) (balance b) \<and> save_ok io
           \<and> balance b = Fin u \<and> ToNumber rt (c_amount creq) = Fin v
           \<and> u - v = of_int m \<and> \<bar>m\<bar> \<le> 2 ^ 53 \<longrightarrow>
         settled_as (post_payments_card rt io creq w) j = Some (Approved, Fin (u - v), Fin (u - v)))
      \<and> (ToNumber rt (c_amount creq) = balance b \<and> save_ok io \<longrightarrow>
         settled_as (post_payments_card rt io creq w) j = Some (Approved, Fin 0, Fin 0)))"
proof -
  have eq1: "settled_as (post_payments rt io req w) i = Some (Approved, Fin 0, Fin 0)"
    if "reaches_decision rt io req w i a" "ToNumber rt (q_amount req) = balance a" "save_ok io"
  proof -
    from that have fin: "isFinite (balance a)" by (simp add: reaches_decision_def)
    from post_payments_approved [OF that(1) _ that(3)] that(2) fin show ?thesis
      by (simp add: js_le_refl js_sub_self)
  qed
  have eq2: "settled_as (post_payments_card rt io creq w) j = Some (Approved, Fin 0, Fin 0)"
    if "card_reaches_decision rt io creq w j b" "ToNumber rt (c_amount creq) = balance b" "save_ok io"
  proof -
    from that have fin: "isFinite (balance b)" by (simp add: card_reaches_decision_def)
    from post_payments_card_approved [OF that(1) _ that(3)] that(2) fin show ?thesis
      by (simp add: js_le_refl js_sub_self)
  qed
  have ex1: "settled_as (post_payments rt io req w) i = Some (Approved, Fin (p - q), Fin (p - q))"
    if "reaches_decision rt io req w i a" "js_le (ToNumber rt (q_amount req)) (balance a)"
      "save_ok io" "balance a = Fin p" "ToNumber rt (q_amount req) = Fin q"
      "p - q = of_int n" "\<bar>n\<bar> \<le> 2 ^ 53"
    using post_payments_approved [OF that(1-3)] js_sub_exact [OF that(6, 7)] that(4, 5)
    by simp
  have ex2: "settled_as (post_payments_card rt io creq w) j
      = Some (Approved, Fin (u - v), Fin (u - v))"
    if "card_reaches_decision rt io creq w j b" "js_le (ToNumber rt (c_amount creq)) (balance b)"
      "save_ok io" "balance b = Fin u" "ToNumber rt (c_amount creq) = Fin v"
      "u - v = of_int m" "\<bar>m\<bar> \<le> 2 ^ 53"
    using post_payments_card_approved [OF that(1-3)] js_sub_exact [OF that(6, 7)] that(4, 5)
    by simp
  show ?thesis
    using post_payments_declined [of rt io req w i a] post_payments_approved [of rt io req w i a]
      post_payments_card_declined [of rt io creq w j b]
      post_payments_card_approved [of rt io creq w j b] eq1 eq2 ex1 ex2
    by blast
qed

text \<open>
  The theorem at the scenarios of the spec: 4000 paid from 10000 leaves 6000, 500 asked
  of 100 is declined, a card payment of the whole balance leaves 0, and 500 paid from
  10000 leaves exactly 9500.
\<close>

theorem payment_decision_witness:
  "reaches_decision sample_runtime io_ok (sample_payment 4000) (sample_world 10000) 0
     (sample_account 10000)
   \<and> settled_as (post_payments sample_runtime io_ok (sample_payment 4000) (sample_world 10000)) 0
       = Some (Approved, Fin 6000, Fin 6000)
   \<and> reaches_decision sample_runtime io_ok (sample_payment 500) (sample_world 100) 0
       (sample_account 100)
   \<and> settled_as (post_payments sample_runtime io_ok (sample_payment 500) (sample_world 100)) 0
       = Some (Declined, Fin 100, Fin 100)
   \<and> card_reaches_decision sample_runtime io_ok
       (sample_card_payment (js ''4111 1112 3456 7890'') (js ''123'') 100) (sample_world 100) 0
       (sample_account 100)
   \<and> settled_as (post_payments_card sample_runtime io_ok
         (sample_card_payment (js ''4111 1112 3456 7890'') (js ''123'') 100) (sample_world 100)) 0
       = Some (Approved, Fin 0, Fin 0)
   \<and> reaches_decision sample_runtime io_ok (sample_payment 500) (sample_world 10000) 0
       (sample_account 10000)
   \<and> settled_as (post_payments sample_runtime io_ok (sample_payment 500) (sample_world 10000)) 0
       = Some (Approved, Fin 9500, Fin 9500)"
proof -
  have h1: "reaches_decision sample_runtime io_ok (sample_payment 4000) (sample_world 10000) 0
     (sample_account 10000)"
    by (simp add: reaches_decision_def sample_defs js_def)
  have h2: "reaches_decision sample_runtime io_ok (sample_payment 500) (sample_world 100) 0
       (sample_account 100)"
    by (simp add: reaches_decision_def sample_defs js_def)
  have h3: "card_reaches_decision sample_runtime io_ok
       (sample_card_payment (js ''4111 1112 3456 7890'') (js ''123'') 100) (sample_world 100) 0
       (sample_account 100)"
    by (simp add: card_reaches_decision_def card_fields_present_def card_resolves_def
        card_matches_def cleanCardNumber_def is_space_def sample_defs js_def)
  have c1: "settled_as (post_payments sample_runtime io_ok (sample_payment 4000) (sample_world 10000)) 0
       = Some (Approved, Fin 6000, Fin 6000)"
    using payment_decision [where rt = sample_runtime and io = io_ok and req = "sample_payment 4000"
        and w = "sample_world 10000" and i = 0 and a = "sample_account 10000"] h1
    by (simp add: sample_defs js_le_def js_sub_def)
  have c2: "settled_as (post_payments sample_runtime io_ok (sample_payment 500) (sample_world 100)) 0
       = Some (Declined, Fin 100, Fin 100)"
    using payment_decision [where rt = sample_runtime and io = io_ok and req = "sample_payment 500"
        and w = "sample_world 100" and i = 0 and a = "sample_account 100"] h2
    by (simp add: sample_defs)
  have c3: "settled_as (post_payments_card sample_runtime io_ok
         (sample_card_payment (js ''4111 1112 3456 7890'') (js ''123'') 100) (sample_world 100)) 0
       = Some (Approved, Fin 0, Fin 0)"
    using payment_decision [where rt = sample_runtime and io = io_ok
        and creq = "sample_card_payment (js ''4111 1112 3456 7890'') (js ''123'') 100"
        and w = "sample_world 100" and j = 0 and b = "sample_account 100"] h3
    by (simp add: sample_defs)
  have h4: "reaches_decision sample_runtime io_ok (sample_payment 500) (sample_world 10000) 0
       (sample_account 10000)"
    by (simp add: reaches_decision_def sample_defs js_def)
  have h5: "js_le (ToNumber sample_runtime (q_amount (sample_payment 500)))
        (balance (sample_account 10000)) \<and> save_ok io_ok
      \<and> balance (sample_account 10000) = Fin 10000
      \<and> ToNumber sample_runtime (q_amount (sample_payment 500)) = Fin 500
      \<and> (10000::rat) - 500 = of_int 9500 \<and> \<bar>9500::int\<bar> \<le> 2 ^ 53"
    by (simp add: sample_defs js_le_def)
  have c4: "settled_as (post_payments sample_runtime io_ok (sample_payment 500)
      (sample_world 10000)) 0 = Some (Approved, Fin 9500, Fin 9500)"
    using payment_decision [where rt = sample_runtime and io = io_ok and req = "sample_payment 500"
        and w = "sample_world 10000" and i = 0 and a = "sample_account 10000"
        and p = 10000 and q = 500 and n = 9500, THEN conjunct1, THEN mp, OF h4,
        THEN conjunct2, THEN conjunct2, THEN conjunct1, THEN mp, OF h5]
    by simp
  from h1 h2 h3 c1 c2 c3 h4 c4 show ?thesis by simp
qed

section \<open>Ledger entries of payments\<close>

text \<open>
  Claim C3 says that a payment attempt writes a ledger entry if and only if it completes
  to a decision. Here the ledger store refuses the insert: the payment of 4000 from
  10000 is approved, 6000 is stored, and the ledger has no new entry.
\<close>

theorem ledger_entry_counterexample:
  "settled_as (post_payments sample_runtime io_ledger_down (sample_payment 4000)
       (sample_world 10000)) 0 = Some (Approved, Fin 6000, Fin 6000)
   \<and> transactions (snd (post_payments sample_runtime io_ledger_down (sample_payment 4000)
       (sample_world 10000))) = transactions (sample_world 10000)"
  by (simp add: post_payments_def settled_as_def sample_defs Let_def js_def js_le_def js_sub_def
      save_def registerTransaction_def console_error_def)

text \<open>
  Claim C3, amended. A payment attempt (by account number or by card) that completes to
  a decision, approved or declined, hands one entry to the recorder: when the ledger
  store accepts the insert, exactly one entry is appended, for the account of the
  payment and with \<open>balanceAfter\<close> equal to the balance stored for it after the call;
  when the insert fails, no entry is written. An attempt that ends in a failure (fields
  missing, account or card not found, card data wrong, amount invalid, store error)
  writes no entry.
\<close>

theorem ledger_entry_when_recorded:
  "(fst (post_payments rt io req w) = Inr r \<longrightarrow>
      (\<exists>i a. findOne (\<lambda>x. accountNumber x = ToString rt (q_accountNumber req)) (accounts w)
               = Some (i, a)
         \<and> (if create_ok io
             then \<exists>t. transactions (snd (post_payments rt io req w)) = transactions w @ [t]
                    \<and> tx_accountNumber t
                        = accountNumber (accounts (snd (post_payments rt io req w)) ! i)
                    \<and> tx_balanceAfter t
                        = balance (accounts (snd (post_payments rt io req w)) ! i)
             else transactions (snd (post_payments rt io req w)) = transactions w)))
   \<and> (fst (post_payments rt io req w) = Inl e \<longrightarrow>
        transactions (snd (post_payments rt io req w)) = transactions w)
   \<and> (fst (post_payments_card rt io creq w) = Inr r' \<longrightarrow>
      (\<exists>i a. card_resolves rt creq w i a
         \<and> (if create_ok io
             then \<exists>t. transactions (snd (post_payments_card rt io creq w)) = transactions w @ [t]
                    \<and> tx_accountNumber t
                        = accountNumber (accounts (snd (post_payments_card rt io creq w)) ! i)
                    \<and> tx_balanceAfter t
                        = balance (accounts (snd (post_payments_card rt io creq w)) ! i)
             else transactions (snd (post_payments_card rt io creq w)) = transactions w)))
   \<and> (fst (post_payments_card rt io creq w) = Inl e' \<longrightarrow>
        transactions (snd (post_payments_card rt io creq w)) = transactions w)"
proof (intro conjI impI)
  assume "fst (post_payments rt io req w) = Inr r"
  from post_payments_recorded [OF this]
  show "\<exists>i a. findOne (\<lambda>x. accountNumber x = ToString rt (q_accountNumber req)) (accounts w)
               = Some (i, a)
         \<and> (if create_ok io
             then \<exists>t. transactions (snd (post_payments rt io req w)) = transactions w @ [t]
                    \<and> tx_accountNumber t
                        = accountNumber (accounts (snd (post_payments rt io req w)) ! i)
                    \<and> tx_balanceAfter t
                        = balance (accounts (snd (post_payments rt io req w)) ! i)
             else transactions (snd (post_payments rt io req w)) = transactions w)"
    by (cases "create_ok io") auto
next
  assume "fst (post_payments rt io req w) = Inl e"
  then show "transactions (snd (post_payments rt io req w)) = transactions w"
    by (rule post_payments_failed)
next
  assume "fst (post_payments_card rt io creq w) = Inr r'"
  from post_payments_card_recorded [OF this]
  show "\<exists>i a. card_resolves rt creq w i a
         \<and> (if create_ok io
             then \<exists>t. transactions (snd (post_payments_card rt io creq w)) = transactions w @ [t]
                    \<and> tx_accountNumber t
                        = accountNumber (accounts (snd (post_payments_card rt io creq w)) ! i)
                    \<and> tx_balanceAfter t
                        = balance (accounts (snd (post_payments_card rt io creq w)) ! i)
             else transactions (snd (post_payments_card rt io creq w)) = transactions w)"
    by (cases "create_ok io") auto
next
  assume "fst (post_payments_card rt io creq w) = Inl e'"
  then show "transactions (snd (post_payments_card rt io creq w)) = transactions w"
    by (rule post_payments_card_failed)
qed

text \<open>
  The theorem on a declined payment, on an invalid amount, on a card payment with a
  wrong CVV and on an approved card payment.
\<close>

theorem ledger_entry_when_recorded_witness:
  "fst (post_payments sample_runtime io_ok (sample_payment 500) (sample_world 100))
     = Inr \<lparr>r_status = Declined, r_transactionId = js ''POVY-1700000000000'',
            r_message = js ''Fondos insuficientes en la cuenta.'', r_amount = Fin 500,
            r_currency = JStr (js ''USD''), r_description = JStr (js ''Pago de prueba''),
            r_accountNumber = js ''001-00000042'', r_cardLast4 = None,
            r_remainingBalance = Fin 100\<rparr>
   \<and> create_ok io_ok
   \<and> length (transactions (snd (post_payments sample_runtime io_ok (sample_payment 500)
        (sample_world 100)))) = 1
   \<and> map tx_balanceAfter (transactions (snd (post_payments sample_runtime io_ok
        (sample_payment 500) (sample_world 100)))) = [Fin 100]
   \<and> fst (post_payments sample_runtime io_ok (sample_payment 0) (sample_world 100))
       = Inl InvalidAmount
   \<and> transactions (snd (post_payments sample_runtime io_ok (sample_payment 0)
        (sample_world 100))) = []
   \<and> fst (post_payments_card sample_runtime io_ok
         (sample_card_payment (js ''4111111234567890'') (js ''999'') 50) (sample_world 100))
       = Inl CardAuthenticationFailed
   \<and> transactions (snd (post_payments_card sample_runtime io_ok
         (sample_card_payment (js ''4111111234567890'') (js ''999'') 50) (sample_world 100))) = []
   \<and> fst (post_payments_card sample_runtime io_ok
         (sample_card_payment (js ''4111111234567890'') (js ''123'') 50) (sample_world 100))
       = Inr \<lparr>r_status = Approved, r_transactionId = js ''POVY-CARD-1700000000000'',
              r_message = js ''Pago aprobado.'', r_amount = Fin 50,
              r_currency = JStr (js ''USD''),
              r_description = JStr (js ''Pago de prueba con tarjeta''),
              r_accountNumber = js ''001-00000042'', r_cardLast4 = Some (js ''7890''),
              r_remainingBalance = Fin 50\<rparr>
   \<and> length (transactions (snd (post_payments_card sample_runtime io_ok
         (sample_card_payment (js ''4111111234567890'') (js ''123'') 50) (sample_world 100)))) = 1"
proof -
  let ?res = "post_payments sample_runtime io_ok (sample_payment 500) (sample_world 100)"
  let ?r = "\<lparr>r_status = Declined, r_transactionId = js ''POVY-1700000000000'',
            r_message = js ''Fondos insuficientes en la cuenta.'', r_amount = Fin 500,
            r_currency = JStr (js ''USD''), r_description = JStr (js ''Pago de prueba''),
            r_accountNumber = js ''001-00000042'', r_cardLast4 = None,
            r_remainingBalance = Fin 100\<rparr>"
  have h1: "fst ?res = Inr ?r"
    by (simp add: post_payments_def sample_defs Let_def js_def js_le_def or_else_def dec.simps)
  have h2: "create_ok io_ok" by (simp add: sample_defs)
  have acc: "accounts (snd ?res) = [sample_account 100]"
    by (simp add: post_payments_def sample_defs Let_def js_def js_le_def)
  have h3: "fst (post_payments sample_runtime io_ok (sample_payment 0) (sample_world 100))
       = Inl InvalidAmount"
    by (simp add: post_payments_def sample_defs Let_def js_def js_le_def)
  note recorded = ledger_entry_when_recorded [where rt = sample_runtime and io = io_ok
      and req = "sample_payment 500" and w = "sample_world 100" and r = ?r,
      THEN conjunct1, THEN mp, OF h1]
  with h2 obtain i a t where t: "transactions (snd ?res) = transactions (sample_world 100) @ [t]"
    and ia: "findOne (\<lambda>x. accountNumber x
                 = ToString sample_runtime (q_accountNumber (sample_payment 500)))
           (accounts (sample_world 100)) = Some (i, a)"
    and bal: "tx_balanceAfter t = balance (accounts (snd ?res) ! i)"
    by auto
  from ia have "i = 0"
    by (simp add: sample_defs js_def)
  with t bal acc have c1: "length (transactions (snd ?res)) = 1"
    and c2: "map tx_balanceAfter (transactions (snd ?res)) = [Fin 100]"
    by (simp_all add: sample_defs)
  note failed = ledger_entry_when_recorded [where rt = sample_runtime and io = io_ok
      and req = "sample_payment 0" and w = "sample_world 100" and e = InvalidAmount,
      THEN conjunct2, THEN conjunct1, THEN mp, OF h3]
  then have c3: "transactions (snd (post_payments sample_runtime io_ok (sample_payment 0)
        (sample_world 100))) = []"
    by (simp add: sample_defs)
  let ?bad = "sample_card_payment (js ''4111111234567890'') (js ''999'') 50"
  let ?good = "sample_card_payment (js ''4111111234567890'') (js ''123'') 50"
  let ?r' = "\<lparr>r_status = Approved, r_transactionId = js ''POVY-CARD-1700000000000'',
              r_message = js ''Pago aprobado.'', r_amount = Fin 50,
              r_currency = JStr (js ''USD''),
              r_description = JStr (js ''Pago de prueba con tarjeta''),
              r_accountNumber = js ''001-00000042'', r_cardLast4 = Some (js ''7890''),
              r_remainingBalance = Fin 50\<rparr>"
  have h4: "fst (post_payments_card sample_runtime io_ok ?bad (sample_world 100))
       = Inl CardAuthenticationFailed"
    by (simp add: post_payments_card_def cleanCardNumber_def is_space_def sample_defs js_def)
  note ledger_entry_when_recorded [where rt = sample_runtime and io = io_ok
      and creq = ?bad and w = "sample_world 100" and e' = CardAuthenticationFailed,
      THEN conjunct2, THEN conjunct2, THEN conjunct2, THEN mp, OF h4]
  then have c4: "transactions (snd (post_payments_card sample_runtime io_ok ?bad
      (sample_world 100))) = []"
    by (simp add: sample_defs)
  have h5: "fst (post_payments_card sample_runtime io_ok ?good (sample_world 100)) = Inr ?r'"
    by (simp add: post_payments_card_def cleanCardNumber_def is_space_def sample_defs js_def
        Let_def js_le_def js_sub_def or_else_def slice_last_def dec.simps)
  note ledger_entry_when_recorded [where rt = sample_runtime and io = io_ok
      and creq = ?good and w = "sample_world 100" and r' = ?r',
      THEN conjunct2, THEN conjunct2, THEN conjunct1, THEN mp, OF h5]
  with h2 obtain t' where "transactions (snd (post_payments_card sample_runtime io_ok ?good
      (sample_world 100))) = transactions (sample_world 100) @ [t']"
    by auto
  then have c5: "length (transactions (snd (post_payments_card sample_runtime io_ok ?good
      (sample_world 100)))) = 1"
    by (simp add: sample_defs)
  from h1 h2 c1 c2 h3 c3 h4 c4 h5 c5 show ?thesis by simp
qed

section \<open>A failing recorder\<close>

lemma post_payments_recorder:
  "fst (post_payments rt (io\<lparr>create_ok := False\<rparr>) req w)
     = fst (post_payments rt (io\<lparr>create_ok := True\<rparr>) req w)
   \<and> accounts (snd (post_payments rt (io\<lparr>create_ok := False\<rparr>) req w))
     = accounts (snd (post_payments rt (io\<lparr>create_ok := True\<rparr>) req w))"
  by (simp add: post_payments_def Let_def split: option.splits)

lemma post_payments_recorder_log:
  assumes "fst (post_payments rt (io\<lparr>create_ok := False\<rparr>) req w) = Inr r"
  shows "console (snd (post_payments rt (io\<lparr>create_ok := False\<rparr>) req w))
           = console w @ [Ledger_write_failed]
         \<and> transactions (snd (post_payments rt (io\<lparr>create_ok := False\<rparr>) req w))
           = transactions w"
  using assms
  by (auto simp: post_payments_def Let_def registerTransaction_def console_error_def
      split: if_splits option.splits)

lemma post_payments_card_recorder:
  "fst (post_payments_card rt (io\<lparr>create_ok := False\<rparr>) req w)
     = fst (post_payments_card rt (io\<lparr>create_ok := True\<rparr>) req w)
   \<and> accounts (snd (post_payments_card rt (io\<lparr>create_ok := False\<rparr>) req w))
     = accounts (snd (post_payments_card rt (io\<lparr>create_ok := True\<rparr>) req w))"
  by (simp add: post_payments_card_def Let_def split: option.splits)

lemma post_payments_card_recorder_log:
  assumes "fst (post_payments_card rt (io\<lparr>create_ok := False\<rparr>) req w) = Inr r"
  shows "console (snd (post_payments_card rt (io\<lparr>create_ok := False\<rparr>) req w))
           = console w @ [Ledger_write_failed]
         \<and> transactions (snd (post_payments_card rt (io\<lparr>create_ok := False\<rparr>) req w))
           = transactions w"
  using assms
  by (auto simp: post_payments_card_def Let_def registerTransaction_def console_error_def
      split: if_splits option.splits)

text \<open>
  Claim C6. For every payment attempt, by account number or by card: when the insert of
  the recorder fails, the response is the one that the attempt gives when the insert
  succeeds, with the same status, and the accounts are stored the same; an attempt
  that reaches the recording step then completes, the failure is written to the
  console and the ledger is as before. The failure is not passed on to the caller.
\<close>

theorem recorder_failure_swallowed:
  "fst (post_payments rt (io\<lparr>create_ok := False\<rparr>) req w)
     = fst (post_payments rt (io\<lparr>create_ok := True\<rparr>) req w)
   \<and> accounts (snd (post_payments rt (io\<lparr>create_ok := False\<rparr>) req w))
     = accounts (snd (post_payments rt (io\<lparr>create_ok := True\<rparr>) req w))
   \<and> (fst (post_payments rt (io\<lparr>create_ok := False\<rparr>) req w) = Inr r \<longrightarrow>
        console (snd (post_payments rt (io\<lparr>create_ok := False\<rparr>) req w))
          = console w @ [Ledger_write_failed]
        \<and> transactions (snd (post_payments rt (io\<lparr>create_ok := False\<rparr>) req w))
          = transactions w)
   \<and> fst (post_payments_card rt (io\<lparr>create_ok := False\<rparr>) creq w)
     = fst (post_payments_card rt (io\<lparr>create_ok := True\<rparr>) creq w)
   \<and> accounts (snd (post_payments_card rt (io\<lparr>create_ok := False\<rparr>) creq w))
     = accounts (snd (post_payments_card rt (io\<lparr>create_ok := True\<rparr>) creq w))
   \<and> (fst (post_payments_card rt (io\<lparr>create_ok := False\<rparr>) creq w) = Inr r' \<longrightarrow>
        console (snd (post_payments_card rt (io\<lparr>create_ok := False\<rparr>) creq w))
          = console w @ [Ledger_write_failed]
        \<and> transactions (snd (post_payments_card rt (io\<lparr>create_ok := False\<rparr>) creq w))
          = transactions w)"
  using post_payments_recorder [of rt io req w] post_payments_recorder_log [of rt io req w r]
    post_payments_card_recorder [of rt io creq w]
    post_payments_card_recorder_log [of rt io creq w r']
  by blast

text \<open>
  The theorem on an approved payment of 4000 from 10000 and on a declined card payment.
\<close>

theorem recorder_failure_swallowed_witness:
  "fst (post_payments sample_runtime (io_ok\<lparr>create_ok := False\<rparr>) (sample_payment 4000)
         (sample_world 10000))
     = Inr \<lparr>r_status = Approved, r_transactionId = js ''POVY-1700000000000'',
            r_message = js ''Pago aprobado.'', r_amount = Fin 4000,
            r_currency = JStr (js ''USD''), r_description = JStr (js ''Pago de prueba''),
            r_accountNumber = js ''001-00000042'', r_cardLast4 = None,
            r_remainingBalance = Fin 6000\<rparr>
   \<and> fst (post_payments sample_runtime (io_ok\<lparr>create_ok := True\<rparr>) (sample_payment 4000)
         (sample_world 10000))
     = Inr \<lparr>r_status = Approved, r_transactionId = js ''POVY-1700000000000'',
            r_message = js ''Pago aprobado.'', r_amount = Fin 4000,
            r_currency = JStr (js ''USD''), r_description = JStr (js ''Pago de prueba''),
            r_accountNumber = js ''001-00000042'', r_cardLast4 = None,
            r_remainingBalance = Fin 6000\<rparr>
   \<and> console (snd (post_payments sample_runtime (io_ok\<lparr>create_ok := False\<rparr>)
         (sample_payment 4000) (sample_world 10000))) = [Ledger_write_failed]
   \<and> fst (post_payments_card sample_runtime (io_ok\<lparr>create_ok := False\<rparr>)
         (sample_card_payment (js ''4111111234567890'') (js ''123'') 500) (sample_world 100))
     = Inr \<lparr>r_status = Declined, r_transactionId = js ''POVY-CARD-1700000000000'',
            r_message = js ''Fondos insuficientes en la cuenta.'', r_amount = Fin 500,
            r_currency = JStr (js ''USD''),
            r_description = JStr (js ''Pago de prueba con tarjeta''),
            r_accountNumber = js ''001-00000042'', r_cardLast4 = Some (js ''7890''),
            r_remainingBalance = Fin 100\<rparr>
   \<and> console (snd (post_payments_card sample_runtime (io_ok\<lparr>create_ok := False\<rparr>)
         (sample_card_payment (js ''4111111234567890'') (js ''123'') 500) (sample_world 100)))
     = [Ledger_write_failed]"
proof -
  let ?r = "\<lparr>r_status = Approved, r_transactionId = js ''POVY-1700000000000'',
            r_message = js ''Pago aprobado.'', r_amount = Fin 4000,
            r_currency = JStr (js ''USD''), r_description = JStr (js ''Pago de prueba''),
            r_accountNumber = js ''001-00000042'', r_cardLast4 = None,
            r_remainingBalance = Fin 6000\<rparr>"
  let ?r' = "\<lparr>r_status = Declined, r_transactionId = js ''POVY-CARD-1700000000000'',
            r_message = js ''Fondos insuficientes en la cuenta.'', r_amount = Fin 500,
            r_currency = JStr (js ''USD''),
            r_description = JStr (js ''Pago de prueba con tarjeta''),
            r_accountNumber = js ''001-00000042'', r_cardLast4 = Some (js ''7890''),
            r_remainingBalance = Fin 100\<rparr>"
  let ?creq = "sample_card_payment (js ''4111111234567890'') (js ''123'') 500"
  have h1: "fst (post_payments sample_runtime (io_ok\<lparr>create_ok := False\<rparr>)
      (sample_payment 4000) (sample_world 10000)) = Inr ?r"
    by (simp add: post_payments_def sample_defs Let_def js_def js_le_def js_sub_def or_else_def
        dec.simps)
  have h2: "fst (post_payments_card sample_runtime (io_ok\<lparr>create_ok := False\<rparr>) ?creq
      (sample_world 100)) = Inr ?r'"
    by (simp add: post_payments_card_def cleanCardNumber_def is_space_def sample_defs js_def
        Let_def js_le_def or_else_def slice_last_def dec.simps)
  note T = recorder_failure_swallowed [where rt = sample_runtime and io = io_ok
      and req = "sample_payment 4000" and creq = ?creq and r = ?r and r' = ?r'
      and w = "sample_world 10000"]
  note U = recorder_failure_swallowed [where rt = sample_runtime and io = io_ok
      and req = "sample_payment 4000" and creq = ?creq and r = ?r and r' = ?r'
      and w = "sample_world 100"]
  from T h1 have c1: "fst (post_payments sample_runtime (io_ok\<lparr>create_ok := True\<rparr>)
      (sample_payment 4000) (sample_world 10000)) = Inr ?r"
    by simp
  from T h1 have c2: "console (snd (post_payments sample_runtime (io_ok\<lparr>create_ok := False\<rparr>)
         (sample_payment 4000) (sample_world 10000))) = [Ledger_write_failed]"
    by (simp add: sample_defs)
  from U h2 have c3: "console (snd (post_payments_card sample_runtime
      (io_ok\<lparr>create_ok := False\<rparr>) ?creq (sample_world 100))) = [Ledger_write_failed]"
    by (simp add: sample_defs)
  from h1 c1 c2 h2 c3 show ?thesis by simp
qed

section \<open>Card data that do not match\<close>



section \<open>An adjustment with both fields\<close>

lemma assign_currency_cases:
  "assign_currency v a = Inl e \<Longrightarrow> e = UnsupportedCurrency"
  by (auto simp: assign_currency_def split: if_splits jsval.splits)

lemma assign_currency_ok:
  "\<not> ToBoolean v \<or> (\<exists>s\<in>set allowedCurrencies. v = JStr s) \<Longrightarrow>
   \<exists>a'. assign_currency v a = Inr a'"
  by (auto simp: assign_currency_def)

text \<open>
  Claim C8. An adjustment that supplies both \<open>balance\<close> and \<open>addBalance\<close> fails, and no
  account and no ledger entry changes. Where the account exists, the failure is a
  validation failure (status 400) and the world is as before; where moreover the
  currency of the request is absent or supported, it is the failure for supplying both
  fields.
\<close>

theorem both_balance_fields_rejected:
  assumes "u_balance req \<noteq> JUndefined" and "u_addBalance req \<noteq> JUndefined"
  shows "(\<exists>e. fst (patch_account rt io accountNo req w) = Inl e)
         \<and> accounts (snd (patch_account rt io accountNo req w)) = accounts w
         \<and> transactions (snd (patch_account rt io accountNo req w)) = transactions w
         \<and> (findOne_ok io
              \<and> findOne (\<lambda>x. accountNumber x = accountNo) (accounts w) = Some (i, a) \<longrightarrow>
            snd (patch_account rt io accountNo req w) = w
            \<and> (\<exists>e. fst (patch_account rt io accountNo req w) = Inl e \<and> http_status e = 400))
         \<and> (findOne_ok io
              \<and> findOne (\<lambda>x. accountNumber x = accountNo) (accounts w) = Some (i, a)
              \<and> (\<not> ToBoolean (u_currency req)
                   \<or> (\<exists>s\<in>set allowedCurrencies. u_currency req = JStr s)) \<longrightarrow>
            patch_account rt io accountNo req w = (Inl BothBalanceFields, w))"
proof -
  have "\<exists>a'. assign_currency (u_currency req) a = Inr a'"
    if "\<not> ToBoolean (u_currency req) \<or> (\<exists>s\<in>set allowedCurrencies. u_currency req = JStr s)"
    using that by (rule assign_currency_ok)
  with assms show ?thesis
    by (auto simp: patch_account_def split: option.splits sum.splits
        dest: assign_currency_cases)
qed

text \<open>The theorem on a request with \<open>balance\<close> 500 and \<open>addBalance\<close> 250.\<close>

theorem both_balance_fields_rejected_witness:
  "u_balance (sample_patch (JNum (Fin 500)) (JNum (Fin 250))) \<noteq> JUndefined
   \<and> u_addBalance (sample_patch (JNum (Fin 500)) (JNum (Fin 250))) \<noteq> JUndefined
   \<and> patch_account sample_runtime io_ok (js ''001-00000042'')
        (sample_patch (JNum (Fin 500)) (JNum (Fin 250))) (sample_world 100)
       = (Inl BothBalanceFields, sample_world 100)"
proof -
  let ?req = "sample_patch (JNum (Fin 500)) (JNum (Fin 250))"
  have h1: "u_balance ?req \<noteq> JUndefined" and h2: "u_addBalance ?req \<noteq> JUndefined"
    by (simp_all add: sample_defs)
  have h3: "findOne_ok io_ok
      \<and> findOne (\<lambda>x. accountNumber x = js ''001-00000042'') (accounts (sample_world 100))
          = Some (0, sample_account 100)
      \<and> (\<not> ToBoolean (u_currency ?req)
           \<or> (\<exists>s\<in>set allowedCurrencies. u_currency ?req = JStr s))"
    by (simp add: sample_defs)
  from both_balance_fields_rejected [OF h1 h2, of sample_runtime io_ok "js ''001-00000042''"
      "sample_world 100" 0 "sample_account 100"] h3
  have "patch_account sample_runtime io_ok (js ''001-00000042'') ?req (sample_world 100)
       = (Inl BothBalanceFields, sample_world 100)"
    by blast
  with h1 h2 show ?thesis by simp
qed

section \<open>Ledger entries of balance adjustments\<close>

lemma assign_currency_fields:
  "assign_currency v a = Inr a' \<Longrightarrow> a' = a\<lparr>currency := currency a'\<rparr>"
  by (auto simp: assign_currency_def split: if_splits jsval.splits)

lemma save_stored:
  assumes "accounts w ! i = loaded" and "i < length (accounts w)"
    and "doc = loaded\<lparr>balance := balance doc, currency := currency doc\<rparr>"
  shows "accounts (save i loaded doc w) ! i = doc"
proof -
  have "loaded\<lparr>balance := balance doc, currency := currency doc\<rparr> = doc"
    using assms(3) by simp
  moreover have "accounts (save i loaded doc w) ! i
      = loaded\<lparr>balance := balance doc, currency := currency doc\<rparr>"
    using assms(1, 2) by (auto simp: save_def Let_def)
  ultimately show ?thesis by simp
qed

text \<open>
  Claim C7 says that every successful adjustment by \<open>addBalance\<close> appends exactly one
  ledger entry. Here the ledger store refuses the insert: the adjustment of 250 on a
  balance of 100 succeeds, 350 is stored, and the ledger has no new entry.
\<close>

theorem adjust_balance_counterexample:
  "fst (patch_account sample_runtime io_ledger_down (js ''001-00000042'')
         (sample_patch JUndefined (JNum (Fin 250))) (sample_world 100))
     = Inr (sample_account 350)
   \<and> accounts (snd (patch_account sample_runtime io_ledger_down (js ''001-00000042'')
         (sample_patch JUndefined (JNum (Fin 250))) (sample_world 100)))
     = [sample_account 350]
   \<and> transactions (snd (patch_account sample_runtime io_ledger_down (js ''001-00000042'')
         (sample_patch JUndefined (JNum (Fin 250))) (sample_world 100)))
     = transactions (sample_world 100)"
  by (simp add: patch_account_def assign_currency_def sample_defs Let_def save_def
      registerTransaction_def console_error_def)

text \<open>
  Claim C7, amended. For every successful adjustment: on the \<open>addBalance\<close> path, when the
  ledger store accepts the insert, exactly one entry is appended, of type credit if
  the delta is at least 0 and debit otherwise, with the magnitude of the delta as
  amount, source \<open>manual_topup\<close>, no transaction id, and \<open>balanceAfter\<close> equal to the
  updated balance, which is the stored balance plus the delta; when the insert fails,
  no entry is appended. Without \<open>addBalance\<close> (the absolute \<open>balance\<close> path, or a change of
  currency alone) no entry is appended. The account of the response is the one stored.
\<close>

theorem adjust_balance_ledger:
  assumes "fst (patch_account rt io accountNo req w) = Inr acc"
  shows "(u_addBalance req \<noteq> JUndefined \<and> create_ok io \<longrightarrow>
            transactions (snd (patch_account rt io accountNo req w))
              = transactions w @
                [\<lparr>tx_accountNumber = accountNumber acc,
                  tx_type = (if js_ge (ToNumber rt (u_addBalance req)) (Fin 0)
                             then Credit else Debit),
                  tx_amount = js_abs (ToNumber rt (u_addBalance req)),
                  tx_currency = JStr (currency acc),
                  tx_description = JStr (js ''Ajuste manual de saldo (recarga ficticia)''),
                  tx_source = Manual_topup,
                  tx_transactionId = None,
                  tx_balanceAfter = balance acc,
                  tx_merchantName = JStr (js ''Povy Test'')\<rparr>])
         \<and> (u_addBalance req \<noteq> JUndefined \<and> \<not> create_ok io \<longrightarrow>
            transactions (snd (patch_account rt io accountNo req w)) = transactions w)
         \<and> (u_addBalance req = JUndefined \<longrightarrow>
            transactions (snd (patch_account rt io accountNo req w)) = transactions w)
         \<and> (\<exists>i a. findOne (\<lambda>x. accountNumber x = accountNo) (accounts w) = Some (i, a)
                \<and> accounts (snd (patch_account rt io accountNo req w)) ! i = acc
                \<and> (u_addBalance req \<noteq> JUndefined \<longrightarrow>
                     balance acc = js_add (balance a) (ToNumber rt (u_addBalance req)))
                \<and> (u_addBalance req = JUndefined \<and> u_balance req \<noteq> JUndefined \<longrightarrow>
                     balance acc = ToNumber rt (u_balance req)))"
proof (cases "findOne (\<lambda>x. accountNumber x = accountNo) (accounts w)")
  case None
  with assms show ?thesis
    by (simp add: patch_account_def split: if_splits)
next
  case (Some p)
  obtain i a where p: "p = (i, a)" by (cases p)
  from Some p have ia: "i < length (accounts w)" "accounts w ! i = a"
    using findOne_Some by fast+
  from assms Some p obtain a' where a': "assign_currency (u_currency req) a = Inr a'"
    by (auto simp: patch_account_def split: if_splits sum.splits)
  from assign_currency_fields [OF a'] obtain c where cur: "a' = a\<lparr>currency := c\<rparr>"
    by blast
  have st: "accounts (save i a (a'\<lparr>balance := b\<rparr>) w) ! i = a'\<lparr>balance := b\<rparr>" for b
    by (rule save_stored [OF ia(2) ia(1)]) (simp add: cur)
  have st': "accounts (save i a a' w) ! i = a'"
    by (rule save_stored [OF ia(2) ia(1)]) (simp add: cur)
  have bal: "balance a' = balance a"
    by (simp add: cur)
  from assms Some p a' show ?thesis
    by (auto simp: patch_account_def Let_def registerTransaction_def console_error_def st st' bal
        split: if_splits)
qed

text \<open>
  The theorem on the scenario of the spec, \<open>addBalance\<close> 250 on a balance of 100, and on
  setting the balance to 500.
\<close>

theorem adjust_balance_ledger_witness:
  "fst (patch_account sample_runtime io_ok (js ''001-00000042'')
         (sample_patch JUndefined (JNum (Fin 250))) (sample_world 100))
     = Inr (sample_account 350)
   \<and> create_ok io_ok
   \<and> transactions (snd (patch_account sample_runtime io_ok (js ''001-00000042'')
         (sample_patch JUndefined (JNum (Fin 250))) (sample_world 100)))
     = [\<lparr>tx_accountNumber = js ''001-00000042'', tx_type = Credit, tx_amount = Fin 250,
         tx_currency = JStr (js ''USD''),
         tx_description = JStr (js ''Ajuste manual de saldo (recarga ficticia)''),
         tx_source = Manual_topup, tx_transactionId = None, tx_balanceAfter = Fin 350,
         tx_merchantName = JStr (js ''Povy Test'')\<rparr>]
   \<and> fst (patch_account sample_runtime io_ok (js ''001-00000042'')
         (sample_patch (JNum (Fin 500)) JUndefined) (sample_world 100))
     = Inr (sample_account 500)
   \<and> transactions (snd (patch_account sample_runtime io_ok (js ''001-00000042'')
         (sample_patch (JNum (Fin 500)) JUndefined) (sample_world 100))) = []"
proof -
  let ?add = "sample_patch JUndefined (JNum (Fin 250))"
  let ?set = "sample_patch (JNum (Fin 500)) JUndefined"
  have h1: "fst (patch_account sample_runtime io_ok (js ''001-00000042'') ?add (sample_world 100))
     = Inr (sample_account 350)"
    by (simp add: patch_account_def assign_currency_def sample_defs Let_def)
  have h2: "create_ok io_ok \<and> u_addBalance ?add \<noteq> JUndefined"
    by (simp add: sample_defs)
  have h3: "fst (patch_account sample_runtime io_ok (js ''001-00000042'') ?set (sample_world 100))
     = Inr (sample_account 500)"
    by (simp add: patch_account_def assign_currency_def sample_defs Let_def js_lt_def)
  have h4: "u_addBalance ?set = JUndefined"
    by (simp add: sample_defs)
  from adjust_balance_ledger [OF h1] h2
  have c1: "transactions (snd (patch_account sample_runtime io_ok (js ''001-00000042'') ?add
      (sample_world 100)))
     = [\<lparr>tx_accountNumber = js ''001-00000042'', tx_type = Credit, tx_amount = Fin 250,
         tx_currency = JStr (js ''USD''),
         tx_description = JStr (js ''Ajuste manual de saldo (recarga ficticia)''),
         tx_source = Manual_topup, tx_transactionId = None, tx_balanceAfter = Fin 350,
         tx_merchantName = JStr (js ''Povy Test'')\<rparr>]"
    by (simp add: sample_defs js_ge_def js_le_def)
  from adjust_balance_ledger [OF h3] h4
  have c2: "transactions (snd (patch_account sample_runtime io_ok (js ''001-00000042'') ?set
      (sample_world 100))) = []"
    by (simp add: sample_defs)
  from h1 h2 c1 h3 c2 show ?thesis by simp
qed

section \<open>White space in a card number\<close>

lemma filter_dropWhile_not:
  "filter (\<lambda>c. \<not> P c) (dropWhile P xs) = filter (\<lambda>c. \<not> P c) xs"
  by (induction xs) simp_all

lemma replace_spaces_filter: "replace_spaces s = filter (\<lambda>c. \<not> is_space c) s"
  by (induction s rule: replace_spaces.induct) (simp_all add: filter_dropWhile_not)

lemma same_but_spaces_filter:
  "same_but_spaces xs ys \<Longrightarrow>
   filter (\<lambda>c. \<not> is_space c) xs = filter (\<lambda>c. \<not> is_space c) ys"
  by (induction rule: same_but_spaces.induct) simp_all

lemma same_but_spaces_strip: "same_but_spaces xs (filter (\<lambda>c. \<not> is_space c) xs)"
  by (induction xs) (auto intro: same_but_spaces.intros)

section \<open>The last four of the card\<close>

lemma findOne_first:
  "findOne P xs = Some (i, a) \<Longrightarrow> j < i \<Longrightarrow> \<not> P (xs ! j)"
proof (induction xs arbitrary: i j)
  case Nil
  then show ?case by simp
next
  case (Cons x xs)
  show ?case
  proof (cases "P x")
    case True
    with Cons.prems show ?thesis by simp
  next
    case False
    with Cons.prems obtain k where k: "findOne P xs = Some (k, a)" "i = Suc k"
      by (auto split: option.splits)
    show ?thesis
    proof (cases j)
      case 0
      with False show ?thesis by simp
    next
      case (Suc j')
      with Cons.prems k Cons.IH [of k j'] show ?thesis by simp
    qed
  qed
qed

lemma findOne_eqI:
  "i < length xs \<Longrightarrow> P (xs ! i) \<Longrightarrow> (\<And>j. j < i \<Longrightarrow> \<not> P (xs ! j)) \<Longrightarrow>
   findOne P xs = Some (i, xs ! i)"
proof (induction xs arbitrary: i)
  case Nil
  then show ?case by simp
next
  case (Cons x xs)
  show ?case
  proof (cases i)
    case 0
    with Cons.prems show ?thesis by simp
  next
    case (Suc k)
    from Cons.prems(3) [of 0] Suc have nx: "\<not> P x" by simp
    have "findOne P xs = Some (k, xs ! k)"
    proof (rule Cons.IH)
      from Cons.prems(1) Suc show "k < length xs" by simp
      from Cons.prems(2) Suc show "P (xs ! k)" by simp
      fix j assume "j < k"
      with Cons.prems(3) [of "Suc j"] Suc show "\<not> P (xs ! j)" by simp
    qed
    with nx Suc show ?thesis by simp
  qed
qed

lemma slice_last_length: "n \<le> length s \<Longrightarrow> length (slice_last n s) = n"
  by (simp add: slice_last_def)

lemma slice_last_suffix: "s = take (length s - n) s @ slice_last n s"
  by (simp add: slice_last_def)

lemma dec_length: "10 ^ k \<le> n \<Longrightarrow> k < length (dec n)"
proof (induction k arbitrary: n)
  case 0
  show ?case by (subst dec.simps) simp
next
  case (Suc k)
  from Suc.prems have p: "10 * 10 ^ k \<le> n" by simp
  have q: "(10::nat) \<le> 10 * 10 ^ k" by simp
  from p q have big: "\<not> n < 10" by linarith
  from p have "(10 * 10 ^ k) div 10 \<le> n div 10"
    by (rule div_le_mono)
  then have "10 ^ k \<le> n div 10" by simp
  from Suc.IH [OF this] big show ?case
    by (subst dec.simps) simp
qed

lemma generateCardForAccount_at_least:
  "6 \<le> length (cardNumber (generateCardForAccount random1 fullYear random2))"
  by (simp add: generateCardForAccount_def Let_def js_def)

lemma generateCardForAccount_length:
  assumes "0 \<le> random1" and "random1 < 1"
  shows "length (cardNumber (generateCardForAccount random1 fullYear random2)) = 16"
proof -
  from assms have "0 \<le> random1 * 9000000000"
    and "random1 * 9000000000 \<le> of_int 9000000000"
    by simp_all
  then have "\<exists>r. round64 (random1 * 9000000000) = Fin r \<and> 0 \<le> r \<and> r \<le> of_int 9000000000"
    by (rule round64_upto) simp
  then obtain p where p: "round64 (random1 * 9000000000) = Fin p" "0 \<le> p" "p \<le> 9000000000"
    by auto
  then have "of_int 1000000000 \<le> 1000000000 + p"
    and "1000000000 + p \<le> of_int 10000000000"
    by simp_all
  then have "\<exists>r. round64 (1000000000 + p) = Fin r \<and> of_int 1000000000 \<le> r
      \<and> r \<le> of_int 10000000000"
    by (rule round64_between) simp_all
  then obtain t where t: "round64 (1000000000 + p) = Fin t" "1000000000 \<le> t"
    by auto
  from t(2) have "(1000000000 :: int) \<le> \<lfloor>t\<rfloor>"
    by (simp add: le_floor_iff)
  then have "(1000000000 :: nat) \<le> nat \<lfloor>t\<rfloor>" and "0 \<le> \<lfloor>t\<rfloor>"
    by linarith+
  then have "10 ^ 9 \<le> nat \<lfloor>t\<rfloor>"
    by simp
  from dec_length [OF this] \<open>0 \<le> \<lfloor>t\<rfloor>\<close> show ?thesis
    by (simp add: generateCardForAccount_def Let_def js_def p t)
qed

lemma post_payments_card_Inr:
  assumes "card_resolves rt req w i a"
  shows "fst (post_payments_card rt io req w) = Inr r \<longleftrightarrow>
         card_payment_completes rt io req a
         \<and> r = \<lparr>r_status = (if js_gt (ToNumber rt (c_amount req)) (balance a)
                             then Declined else Approved),
                 r_transactionId = js ''POVY-CARD-'' @ dec (now io),
                 r_message = (if js_gt (ToNumber rt (c_amount req)) (balance a)
                              then js ''Fondos insuficientes en la cuenta.''
                              else js ''Pago aprobado.''),
                 r_amount = ToNumber rt (c_amount req),
                 r_currency = or_else (c_currency req) (currency a),
                 r_description = or_else (c_description req) (js ''Pago de prueba con tarjeta''),
                 r_accountNumber = accountNumber a,
                 r_cardLast4 = Some (slice_last 4 (cardNumber (card_info a))),
                 r_remainingBalance = (if js_gt (ToNumber rt (c_amount req)) (balance a)
                                       then balance a
                                       else js_sub (balance a) (ToNumber rt (c_amount req)))\<rparr>"
  using assms
  by (auto simp: post_payments_card_def card_payment_completes_def card_resolves_def
      card_matches_def card_fields_present_def Let_def)

lemma with_card_fields [simp]:
  "c_amount (with_card c req) = c_amount req"
  "c_currency (with_card c req) = c_currency req"
  "c_description (with_card c req) = c_description req"
  "c_merchantName (with_card c req) = c_merchantName req"
  by (simp_all add: with_card_def)

lemma card_resolves_reissue:
  assumes "card_resolves rt req w i a" and "card_ending l i w c"
  shows "card_resolves rt (with_card c req) (reissue i c w) i (a\<lparr>card_info := c\<rparr>)"
proof -
  from assms(1) have ia: "i < length (accounts w)" "accounts w ! i = a"
    using findOne_Some unfolding card_resolves_def by fast+
  from assms(2) have clean: "cleanCardNumber rt (JStr (cardNumber c)) = cardNumber c"
    by (simp add: cleanCardNumber_def replace_spaces_filter card_ending_def)
  let ?xs = "(accounts w)[i := a\<lparr>card_info := c\<rparr>]"
  let ?P = "\<lambda>x. cardNumber (card_info x) = cardNumber c"
  have "findOne ?P ?xs = Some (i, ?xs ! i)"
  proof (rule findOne_eqI)
    from ia show "i < length ?xs" by simp
    from ia show "?P (?xs ! i)" by simp
    fix j assume "j < i"
    with assms(2) show "\<not> ?P (?xs ! j)" by (simp add: card_ending_def)
  qed
  with ia clean show ?thesis
    by (simp add: card_resolves_def with_card_def reissue_def)
qed

text \<open>
  Claim C9. For every successful card payment on an account whose stored card number
  has at least four code units (a card of \<open>generateCardForAccount\<close> has sixteen): the
  \<open>cardLast4\<close> of the result has exactly four code units, the end of the stored number,
  and is not the full number when that is longer. The result holds nothing else of the
  card: the same payment with any other card in its place, of another number with the
  same ending, another expiry month, expiry year and CVV, gives the same result.
\<close>

theorem card_result_last4:
  assumes "fst (post_payments_card rt io req w) = Inr r"
    and "card_resolves rt req w i a"
    and "4 \<le> length (cardNumber (card_info a))"
  shows "(\<exists>p l. r_cardLast4 r = Some l \<and> length l = 4 \<and> cardNumber (card_info a) = p @ l)
         \<and> (4 < length (cardNumber (card_info a)) \<longrightarrow>
              r_cardLast4 r \<noteq> Some (cardNumber (card_info a)))
         \<and> (card_ending (slice_last 4 (cardNumber (card_info a))) i w c \<longrightarrow>
              fst (post_payments_card rt io (with_card c req) (reissue i c w)) = Inr r)"
proof -
  note r = post_payments_card_Inr [OF assms(2), THEN iffD1, OF assms(1)]
  from r have l4: "r_cardLast4 r = Some (slice_last 4 (cardNumber (card_info a)))"
    by simp
  have one: "\<exists>p l. r_cardLast4 r = Some l \<and> length l = 4 \<and> cardNumber (card_info a) = p @ l"
    using l4 slice_last_length [OF assms(3)] slice_last_suffix [of "cardNumber (card_info a)" 4]
    by blast
  have two: "r_cardLast4 r \<noteq> Some (cardNumber (card_info a))"
    if "4 < length (cardNumber (card_info a))"
    using that l4 slice_last_length [OF assms(3)] by auto
  have three: "fst (post_payments_card rt io (with_card c req) (reissue i c w)) = Inr r"
    if c: "card_ending (slice_last 4 (cardNumber (card_info a))) i w c"
  proof -
    from r c have "card_payment_completes rt io (with_card c req) (a\<lparr>card_info := c\<rparr>)"
      by (simp add: card_payment_completes_def card_fields_present_def card_matches_def
          with_card_def card_ending_def)
    moreover from c have "slice_last 4 (cardNumber c) = slice_last 4 (cardNumber (card_info a))"
      by (simp add: card_ending_def)
    ultimately show ?thesis
      using r by (simp add: post_payments_card_Inr [OF card_resolves_reissue [OF assms(2) c]])
  qed
  from one two three show ?thesis by blast
qed

text \<open>
  The theorem on a card payment of 50, and on the card 5500990011227890 with expiry
  01/31 and CVV 456 in the place of the sample card.
\<close>

theorem card_result_last4_witness:
  "fst (post_payments_card sample_runtime io_ok
         (sample_card_payment (js ''4111111234567890'') (js ''123'') 50) (sample_world 100))
     = Inr \<lparr>r_status = Approved, r_transactionId = js ''POVY-CARD-1700000000000'',
            r_message = js ''Pago aprobado.'', r_amount = Fin 50,
            r_currency = JStr (js ''USD''),
            r_description = JStr (js ''Pago de prueba con tarjeta''),
            r_accountNumber = js ''001-00000042'', r_cardLast4 = Some (js ''7890''),
            r_remainingBalance = Fin 50\<rparr>
   \<and> card_resolves sample_runtime
        (sample_card_payment (js ''4111111234567890'') (js ''123'') 50) (sample_world 100) 0
        (sample_account 100)
   \<and> 4 \<le> length (cardNumber (card_info (sample_account 100)))
   \<and> card_ending (js ''7890'') 0 (sample_world 100)
        \<lparr>cardNumber = js ''5500990011227890'', expMonth = js ''01'', expYear = js ''31'',
         cvv = js ''456''\<rparr>
   \<and> fst (post_payments_card sample_runtime io_ok
         (with_card \<lparr>cardNumber = js ''5500990011227890'', expMonth = js ''01'',
                     expYear = js ''31'', cvv = js ''456''\<rparr>
            (sample_card_payment (js ''4111111234567890'') (js ''123'') 50))
         (reissue 0 \<lparr>cardNumber = js ''5500990011227890'', expMonth = js ''01'',
                      expYear = js ''31'', cvv = js ''456''\<rparr> (sample_world 100)))
     = Inr \<lparr>r_status = Approved, r_transactionId = js ''POVY-CARD-1700000000000'',
            r_message = js ''Pago aprobado.'', r_amount = Fin 50,
            r_currency = JStr (js ''USD''),
            r_description = JStr (js ''Pago de prueba con tarjeta''),
            r_accountNumber = js ''001-00000042'', r_cardLast4 = Some (js ''7890''),
            r_remainingBalance = Fin 50\<rparr>"
proof -
  let ?req = "sample_card_payment (js ''4111111234567890'') (js ''123'') 50"
  let ?c = "\<lparr>cardNumber = js ''5500990011227890'', expMonth = js ''01'', expYear = js ''31'',
         cvv = js ''456''\<rparr>"
  let ?r = "\<lparr>r_status = Approved, r_transactionId = js ''POVY-CARD-1700000000000'',
            r_message = js ''Pago aprobado.'', r_amount = Fin 50,
            r_currency = JStr (js ''USD''),
            r_description = JStr (js ''Pago de prueba con tarjeta''),
            r_accountNumber = js ''001-00000042'', r_cardLast4 = Some (js ''7890''),
            r_remainingBalance = Fin 50\<rparr>"
  have h1: "fst (post_payments_card sample_runtime io_ok ?req (sample_world 100)) = Inr ?r"
    by (simp add: post_payments_card_def cleanCardNumber_def is_space_def sample_defs js_def
        Let_def js_le_def js_sub_def or_else_def slice_last_def dec.simps)
  have h2: "card_resolves sample_runtime ?req (sample_world 100) 0 (sample_account 100)"
    by (simp add: card_resolves_def cleanCardNumber_def is_space_def sample_defs js_def)
  have h3: "4 \<le> length (cardNumber (card_info (sample_account 100)))"
    by (simp add: sample_defs js_def)
  have h4: "card_ending (js ''7890'') 0 (sample_world 100) ?c"
    by (simp add: card_ending_def slice_last_def is_space_def js_def)
  have l4: "slice_last 4 (cardNumber (card_info (sample_account 100))) = js ''7890''"
    by (simp add: slice_last_def sample_defs js_def)
  from card_result_last4 [OF h1 h2 h3, of ?c] h4 l4
  have "fst (post_payments_card sample_runtime io_ok (with_card ?c ?req)
      (reissue 0 ?c (sample_world 100))) = Inr ?r"
    by simp
  with h1 h2 h3 h4 show ?thesis by simp
qed

section \<open>The lookup by card number\<close>

lemma findOne_None_iff: "findOne P xs = None \<longleftrightarrow> (\<forall>x\<in>set xs. \<not> P x)"
  by (induction xs) (auto split: option.splits)

lemma post_payments_card_not_found:
  assumes "findOne_ok io" and "card_fields_present req"
    and "c_amount req \<noteq> JUndefined" and "c_amount req \<noteq> JNull"
  shows "fst (post_payments_card rt io req w) = Inl CardNotFound
         \<longleftrightarrow> (\<forall>x\<in>set (accounts w).
                cardNumber (card_info x) \<noteq> cleanCardNumber rt (c_cardNumber req))"
proof (cases "findOne (\<lambda>x. cardNumber (card_info x) = cleanCardNumber rt (c_cardNumber req))
                (accounts w)")
  case None
  then have "\<forall>x\<in>set (accounts w).
      cardNumber (card_info x) \<noteq> cleanCardNumber rt (c_cardNumber req)"
    by (simp add: findOne_None_iff)
  moreover from None assms have "fst (post_payments_card rt io req w) = Inl CardNotFound"
    by (simp add: post_payments_card_def card_fields_present_def)
  ultimately show ?thesis by simp
next
  case (Some p)
  then have "\<not> (\<forall>x\<in>set (accounts w).
      cardNumber (card_info x) \<noteq> cleanCardNumber rt (c_cardNumber req))"
    using findOne_None_iff [of "\<lambda>x. cardNumber (card_info x) = cleanCardNumber rt (c_cardNumber req)"
        "accounts w"]
    by simp
  moreover from Some assms have "fst (post_payments_card rt io req w) \<noteq> Inl CardNotFound"
    by (cases p) (simp add: post_payments_card_def card_fields_present_def Let_def)
  ultimately show ?thesis by simp
qed

text \<open>
  Claim C10. The card number that the lookup uses is the supplied one, as a string,
  without its white space code units and with nothing else changed. The handler answers
  that the card is not found exactly when no stored card number is that string, and a
  completed payment is made on the first account whose stored card number is that
  string. Two card numbers whose strings differ only in white space are cleaned to the
  same string and resolve to the same account, or both to none; where both are present
  (not empty), the whole answer of the handler and the resulting world are the same.
\<close>

theorem card_number_spaces_ignored:
  assumes "same_but_spaces (ToString rt u) (ToString rt v)"
  shows "cleanCardNumber rt u = filter (\<lambda>c. \<not> is_space c) (ToString rt u)
         \<and> cleanCardNumber rt u = cleanCardNumber rt v
         \<and> (\<forall>c\<in>set (cleanCardNumber rt u). \<not> is_space c)
         \<and> card_resolves rt (req\<lparr>c_cardNumber := u\<rparr>) w i a
           = card_resolves rt (req\<lparr>c_cardNumber := v\<rparr>) w i a
         \<and> (findOne_ok io \<and> card_fields_present (req\<lparr>c_cardNumber := u\<rparr>)
              \<and> c_amount req \<noteq> JUndefined \<and> c_amount req \<noteq> JNull \<longrightarrow>
            (fst (post_payments_card rt io (req\<lparr>c_cardNumber := u\<rparr>) w) = Inl CardNotFound
             \<longleftrightarrow> (\<forall>x\<in>set (accounts w).
                    cardNumber (card_info x) \<noteq> filter (\<lambda>c. \<not> is_space c) (ToString rt u))))
         \<and> (fst (post_payments_card rt io (req\<lparr>c_cardNumber := u\<rparr>) w) = Inr r \<longrightarrow>
            (\<exists>k acc. findOne (\<lambda>x. cardNumber (card_info x)
                                  = filter (\<lambda>c. \<not> is_space c) (ToString rt u)) (accounts w)
                        = Some (k, acc)
               \<and> r_accountNumber r = accountNumber acc
               \<and> r_remainingBalance r = balance (accounts (snd (post_payments_card rt io
                    (req\<lparr>c_cardNumber := u\<rparr>) w)) ! k)))
         \<and> (ToBoolean u \<and> ToBoolean v \<longrightarrow>
              post_payments_card rt io (req\<lparr>c_cardNumber := u\<rparr>) w
                = post_payments_card rt io (req\<lparr>c_cardNumber := v\<rparr>) w)"
proof -
  have strip: "cleanCardNumber rt x = filter (\<lambda>c. \<not> is_space c) (ToString rt x)" for x
    by (simp add: cleanCardNumber_def replace_spaces_filter)
  from same_but_spaces_filter [OF assms]
  have eq: "cleanCardNumber rt u = cleanCardNumber rt v"
    by (simp add: strip)
  have clean: "\<forall>c\<in>set (cleanCardNumber rt u). \<not> is_space c"
    by (simp add: strip)
  have same: "post_payments_card rt io (req\<lparr>c_cardNumber := u\<rparr>) w
      = post_payments_card rt io (req\<lparr>c_cardNumber := v\<rparr>) w"
    if "ToBoolean u" "ToBoolean v"
    using that eq by (simp add: post_payments_card_def Let_def split: option.splits)
  have nf: "fst (post_payments_card rt io (req\<lparr>c_cardNumber := u\<rparr>) w) = Inl CardNotFound
      \<longleftrightarrow> (\<forall>x\<in>set (accounts w).
             cardNumber (card_info x) \<noteq> filter (\<lambda>c. \<not> is_space c) (ToString rt u))"
    if "findOne_ok io" "card_fields_present (req\<lparr>c_cardNumber := u\<rparr>)"
      "c_amount req \<noteq> JUndefined" "c_amount req \<noteq> JNull"
    using post_payments_card_not_found [of io "req\<lparr>c_cardNumber := u\<rparr>" rt w] that
    by (simp add: strip)
  have found: "\<exists>k acc. findOne (\<lambda>x. cardNumber (card_info x)
                                  = filter (\<lambda>c. \<not> is_space c) (ToString rt u)) (accounts w)
                        = Some (k, acc)
               \<and> r_accountNumber r = accountNumber acc
               \<and> r_remainingBalance r = balance (accounts (snd (post_payments_card rt io
                    (req\<lparr>c_cardNumber := u\<rparr>) w)) ! k)"
    if "fst (post_payments_card rt io (req\<lparr>c_cardNumber := u\<rparr>) w) = Inr r"
  proof -
    from post_payments_card_recorded [OF that] obtain k acc
      where k: "card_resolves rt (req\<lparr>c_cardNumber := u\<rparr>) w k acc"
        and r: "r_accountNumber r = accountNumber (accounts (snd (post_payments_card rt io
                  (req\<lparr>c_cardNumber := u\<rparr>) w)) ! k)"
          "r_remainingBalance r = balance (accounts (snd (post_payments_card rt io
                  (req\<lparr>c_cardNumber := u\<rparr>) w)) ! k)"
      by blast
    from k have f: "findOne (\<lambda>x. cardNumber (card_info x)
        = filter (\<lambda>c. \<not> is_space c) (ToString rt u)) (accounts w) = Some (k, acc)"
      by (simp add: card_resolves_def strip)
    from post_payments_card_Inr [OF k, THEN iffD1, OF that]
    have "r_accountNumber r = accountNumber acc" by simp
    with f r(2) show ?thesis by blast
  qed
  have res: "card_resolves rt (req\<lparr>c_cardNumber := u\<rparr>) w i a
      = card_resolves rt (req\<lparr>c_cardNumber := v\<rparr>) w i a"
    using eq by (simp add: card_resolves_def)
  show ?thesis
  proof (intro conjI impI)
    show "cleanCardNumber rt u = filter (\<lambda>c. \<not> is_space c) (ToString rt u)"
      by (rule strip)
    show "cleanCardNumber rt u = cleanCardNumber rt v"
      by (rule eq)
    show "\<forall>c\<in>set (cleanCardNumber rt u). \<not> is_space c"
      by (rule clean)
    show "card_resolves rt (req\<lparr>c_cardNumber := u\<rparr>) w i a
      = card_resolves rt (req\<lparr>c_cardNumber := v\<rparr>) w i a"
      by (rule res)
  next
    assume "findOne_ok io \<and> card_fields_present (req\<lparr>c_cardNumber := u\<rparr>)
              \<and> c_amount req \<noteq> JUndefined \<and> c_amount req \<noteq> JNull"
    then show "fst (post_payments_card rt io (req\<lparr>c_cardNumber := u\<rparr>) w) = Inl CardNotFound
      \<longleftrightarrow> (\<forall>x\<in>set (accounts w).
             cardNumber (card_info x) \<noteq> filter (\<lambda>c. \<not> is_space c) (ToString rt u))"
      by (intro nf) blast+
  next
    assume "fst (post_payments_card rt io (req\<lparr>c_cardNumber := u\<rparr>) w) = Inr r"
    then show "\<exists>k acc. findOne (\<lambda>x. cardNumber (card_info x)
                                  = filter (\<lambda>c. \<not> is_space c) (ToString rt u)) (accounts w)
                        = Some (k, acc)
               \<and> r_accountNumber r = accountNumber acc
               \<and> r_remainingBalance r = balance (accounts (snd (post_payments_card rt io
                    (req\<lparr>c_cardNumber := u\<rparr>) w)) ! k)"
      by (rule found)
  next
    assume "ToBoolean u \<and> ToBoolean v"
    then show "post_payments_card rt io (req\<lparr>c_cardNumber := u\<rparr>) w
                = post_payments_card rt io (req\<lparr>c_cardNumber := v\<rparr>) w"
      by (intro same) blast+
  qed
qed

text \<open>
  The theorem on a card number written in groups of four and written without spaces,
  and on a number that no account holds.
\<close>

theorem card_number_spaces_ignored_witness:
  "same_but_spaces (ToString sample_runtime (JStr (js ''4111 1112 3456 7890'')))
     (ToString sample_runtime (JStr (js ''4111111234567890'')))
   \<and> ToBoolean (JStr (js ''4111 1112 3456 7890'')) \<and> ToBoolean (JStr (js ''4111111234567890''))
   \<and> cleanCardNumber sample_runtime (JStr (js ''4111 1112 3456 7890'')) = js ''4111111234567890''
   \<and> post_payments_card sample_runtime io_ok
        (sample_card_payment (js ''4111 1112 3456 7890'') (js ''123'') 50) (sample_world 100)
     = post_payments_card sample_runtime io_ok
        (sample_card_payment (js ''4111111234567890'') (js ''123'') 50) (sample_world 100)
   \<and> fst (post_payments_card sample_runtime io_ok
        (sample_card_payment (js ''4111 1112 3456 7890'') (js ''123'') 50) (sample_world 100))
     = Inr \<lparr>r_status = Approved, r_transactionId = js ''POVY-CARD-1700000000000'',
            r_message = js ''Pago aprobado.'', r_amount = Fin 50,
            r_currency = JStr (js ''USD''),
            r_description = JStr (js ''Pago de prueba con tarjeta''),
            r_accountNumber = js ''001-00000042'', r_cardLast4 = Some (js ''7890''),
            r_remainingBalance = Fin 50\<rparr>
   \<and> fst (post_payments_card sample_runtime io_ok
        (sample_card_payment (js ''4111 1112 3456 7899'') (js ''123'') 50) (sample_world 100))
     = Inl CardNotFound"
proof -
  let ?u = "JStr (js ''4111 1112 3456 7890'')" and ?v = "JStr (js ''4111111234567890'')"
  let ?x = "JStr (js ''4111 1112 3456 7899'')"
  let ?req = "sample_card_payment (js ''4111111234567890'') (js ''123'') 50"
  have f: "filter (\<lambda>c. \<not> is_space c) (js ''4111 1112 3456 7890'') = js ''4111111234567890''"
    by (simp add: js_def is_space_def)
  have g: "filter (\<lambda>c. \<not> is_space c) (js ''4111 1112 3456 7899'') = js ''4111111234567899''"
    by (simp add: js_def is_space_def)
  from f same_but_spaces_strip [of "js ''4111 1112 3456 7890''"]
  have h1: "same_but_spaces (ToString sample_runtime ?u) (ToString sample_runtime ?v)"
    by simp
  from same_but_spaces_strip [of "js ''4111 1112 3456 7899''"]
  have h1': "same_but_spaces (ToString sample_runtime ?x)
      (ToString sample_runtime (JStr (filter (\<lambda>c. \<not> is_space c) (js ''4111 1112 3456 7899''))))"
    by simp
  have h2: "ToBoolean ?u \<and> ToBoolean ?v"
    by (simp add: js_def)
  have h3: "findOne_ok io_ok \<and> card_fields_present (?req\<lparr>c_cardNumber := ?x\<rparr>)
      \<and> c_amount ?req \<noteq> JUndefined \<and> c_amount ?req \<noteq> JNull"
    by (simp add: card_fields_present_def sample_defs js_def)
  have h4: "\<forall>x\<in>set (accounts (sample_world 100)).
      cardNumber (card_info x) \<noteq> filter (\<lambda>c. \<not> is_space c) (ToString sample_runtime ?x)"
    by (simp add: g) (simp add: sample_defs js_def)
  note T = card_number_spaces_ignored [OF h1, where io = io_ok and w = "sample_world 100"
      and req = ?req]
  note U = card_number_spaces_ignored [OF h1', where io = io_ok and w = "sample_world 100"
      and req = ?req]
  from T f have c1: "cleanCardNumber sample_runtime ?u = js ''4111111234567890''"
    by simp
  from T h2 have c2: "post_payments_card sample_runtime io_ok
        (sample_card_payment (js ''4111 1112 3456 7890'') (js ''123'') 50) (sample_world 100)
     = post_payments_card sample_runtime io_ok
        (sample_card_payment (js ''4111111234567890'') (js ''123'') 50) (sample_world 100)"
    by (simp add: sample_card_payment_def)
  have "fst (post_payments_card sample_runtime io_ok
        (sample_card_payment (js ''4111111234567890'') (js ''123'') 50) (sample_world 100))
     = Inr \<lparr>r_status = Approved, r_transactionId = js ''POVY-CARD-1700000000000'',
            r_message = js ''Pago aprobado.'', r_amount = Fin 50,
            r_currency = JStr (js ''USD''),
            r_description = JStr (js ''Pago de prueba con tarjeta''),
            r_accountNumber = js ''001-00000042'', r_cardLast4 = Some (js ''7890''),
            r_remainingBalance = Fin 50\<rparr>"
    by (simp add: post_payments_card_def cleanCardNumber_def is_space_def sample_defs js_def
        Let_def js_le_def js_sub_def or_else_def slice_last_def dec.simps)
  with c2 have c3: "fst (post_payments_card sample_runtime io_ok
        (sample_card_payment (js ''4111 1112 3456 7890'') (js ''123'') 50) (sample_world 100))
     = Inr \<lparr>r_status = Approved, r_transactionId = js ''POVY-CARD-1700000000000'',
            r_message = js ''Pago aprobado.'', r_amount = Fin 50,
            r_currency = JStr (js ''USD''),
            r_description = JStr (js ''Pago de prueba con tarjeta''),
            r_accountNumber = js ''001-00000042'', r_cardLast4 = Some (js ''7890''),
            r_remainingBalance = Fin 50\<rparr>"
    by simp
  from U h3 h4 have "fst (post_payments_card sample_runtime io_ok (?req\<lparr>c_cardNumber := ?x\<rparr>)
      (sample_world 100)) = Inl CardNotFound"
    by blast
  then have c4: "fst (post_payments_card sample_runtime io_ok
        (sample_card_payment (js ''4111 1112 3456 7899'') (js ''123'') 50) (sample_world 100))
     = Inl CardNotFound"
    by (simp add: sample_card_payment_def)
  from h1 h2 c1 c2 c3 c4 show ?thesis by simp
qed

section \<open>A balance below zero\<close>

text \<open>
  Claim C2 says that an operation that would make the balance negative is rejected. The
  \<open>addBalance\<close> path has no such check: whenever the balance plus a finite delta is below
  zero, the adjustment succeeds and that sum is stored.
\<close>

theorem negative_topup_stored:
  assumes "findOne_ok io" and "save_ok io"
    and "findOne (\<lambda>x. accountNumber x = accountNo) (accounts w) = Some (i, a)"
    and "\<not> ToBoolean (u_currency req)" and "u_balance req = JUndefined"
    and "u_addBalance req \<noteq> JUndefined" and "isFinite (ToNumber rt (u_addBalance req))"
    and "js_lt (js_add (balance a) (ToNumber rt (u_addBalance req))) (Fin 0)"
  shows "fst (patch_account rt io accountNo req w)
           = Inr (a\<lparr>balance := js_add (balance a) (ToNumber rt (u_addBalance req))\<rparr>)
         \<and> accounts (snd (patch_account rt io accountNo req w)) ! i
           = a\<lparr>balance := js_add (balance a) (ToNumber rt (u_addBalance req))\<rparr>
         \<and> js_lt (balance (accounts (snd (patch_account rt io accountNo req w)) ! i)) (Fin 0)"
proof -
  from assms(3) have ia: "i < length (accounts w)" "accounts w ! i = a"
    using findOne_Some by fast+
  have st: "accounts (save i a (a\<lparr>balance := b\<rparr>) w) ! i = a\<lparr>balance := b\<rparr>" for b
    by (rule save_stored [OF ia(2) ia(1)]) simp
  from assms show ?thesis
    by (simp add: patch_account_def assign_currency_def Let_def st)
qed

text \<open>
  A delta of -500 on a balance of 100: the call succeeds, stores -400 and records a debit
  of 500 with \<open>balanceAfter\<close> -400. The path that sets the balance does reject -400.
\<close>

theorem negative_topup_stored_witness:
  "patch_account sample_runtime io_ok (js ''001-00000042'')
     (sample_patch JUndefined (JNum (Fin (- 500)))) (sample_world 100)
   = (Inr (sample_account (- 400)),
      \<lparr>accounts = [sample_account (- 400)],
       transactions =
         [\<lparr>tx_accountNumber = js ''001-00000042'', tx_type = Debit, tx_amount = Fin 500,
           tx_currency = JStr (js ''USD''),
           tx_description = JStr (js ''Ajuste manual de saldo (recarga ficticia)''),
           tx_source = Manual_topup, tx_transactionId = None, tx_balanceAfter = Fin (- 400),
           tx_merchantName = JStr (js ''Povy Test'')\<rparr>],
       console = []\<rparr>)
   \<and> js_lt (balance (sample_account (- 400))) (Fin 0)
   \<and> patch_account sample_runtime io_ok (js ''001-00000042'')
       (sample_patch (JNum (Fin (- 400))) JUndefined) (sample_world 100)
     = (Inl InvalidBalance, sample_world 100)"
proof -
  let ?req = "sample_patch JUndefined (JNum (Fin (- 500)))"
  let ?res = "patch_account sample_runtime io_ok (js ''001-00000042'') ?req (sample_world 100)"
  have h: "findOne_ok io_ok" "save_ok io_ok"
    "findOne (\<lambda>x. accountNumber x = js ''001-00000042'') (accounts (sample_world 100))
       = Some (0, sample_account 100)"
    "\<not> ToBoolean (u_currency ?req)" "u_balance ?req = JUndefined"
    "u_addBalance ?req \<noteq> JUndefined" "isFinite (ToNumber sample_runtime (u_addBalance ?req))"
    "js_lt (js_add (balance (sample_account 100)) (ToNumber sample_runtime (u_addBalance ?req)))
       (Fin 0)"
    by (simp_all add: sample_defs js_lt_def)
  from negative_topup_stored [OF h]
  have c1: "fst ?res = Inr (sample_account (- 400))"
    and c2: "js_lt (balance (sample_account (- 400))) (Fin 0)"
    by (simp_all add: sample_defs js_lt_def)
  have c3: "snd ?res = \<lparr>accounts = [sample_account (- 400)],
       transactions =
         [\<lparr>tx_accountNumber = js ''001-00000042'', tx_type = Debit, tx_amount = Fin 500,
           tx_currency = JStr (js ''USD''),
           tx_description = JStr (js ''Ajuste manual de saldo (recarga ficticia)''),
           tx_source = Manual_topup, tx_transactionId = None, tx_balanceAfter = Fin (- 400),
           tx_merchantName = JStr (js ''Povy Test'')\<rparr>],
       console = []\<rparr>"
    by (simp add: patch_account_def assign_currency_def sample_defs Let_def save_def
        registerTransaction_def js_ge_def js_le_def)
  have c4: "patch_account sample_runtime io_ok (js ''001-00000042'')
       (sample_patch (JNum (Fin (- 400))) JUndefined) (sample_world 100)
     = (Inl InvalidBalance, sample_world 100)"
    by (simp add: patch_account_def assign_currency_def sample_defs Let_def js_lt_def)
  from c1 c3 have "?res = (Inr (sample_account (- 400)), \<lparr>accounts = [sample_account (- 400)],
       transactions =
         [\<lparr>tx_accountNumber = js ''001-00000042'', tx_type = Debit, tx_amount = Fin 500,
           tx_currency = JStr (js ''USD''),
           tx_description = JStr (js ''Ajuste manual de saldo (recarga ficticia)''),
           tx_source = Manual_topup, tx_transactionId = None, tx_balanceAfter = Fin (- 400),
           tx_merchantName = JStr (js ''Povy Test'')\<rparr>],
       console = []\<rparr>)"
    by (simp add: prod_eq_iff)
  with c2 c4 show ?thesis by simp
qed

section \<open>Two payments at the same time\<close>

text \<open>A request that runs alone through its three steps is the handler.\<close>

lemma run_alone_post_payments:
  "run_alone rt io req w
     = (Finished (fst (post_payments rt io req w)), snd (post_payments rt io req w))"
  by (simp add: run_alone_def post_payments_def Let_def split: option.splits)

lemma save_twice_balance:
  assumes "i < length (accounts w)" and "accounts w ! i = a"
  shows "balance (accounts (save i a (a\<lparr>balance := y\<rparr>) (save i a (a\<lparr>balance := x\<rparr>) w)) ! i)
           = (if y = balance a then x else y)"
  using assms by (simp add: save_def Let_def)

text \<open>
  Claim C4 says that payments on one account that overlap are approved only as far as
  the balance can sustain. Two payments on the same account take their steps in turn,
  so that both read the account before either writes it: as soon as each amount alone
  is within the balance, both are approved, whatever their sum, and the balance that
  stays stored is the one of the second write (of the first, where the second
  subtraction leaves the Number as it was and nothing is written).
\<close>

theorem overlapping_payments_overdraw:
  assumes "reaches_decision rt io req1 w i a" and "reaches_decision rt io req2 w i a"
    and "save_ok io"
    and "js_le (ToNumber rt (q_amount req1)) (balance a)"
    and "js_le (ToNumber rt (q_amount req2)) (balance a)"
  shows "map task_status (fst (run rt io [0, 1, 0, 1, 0, 1] ([Start req1, Start req2], w)))
           = [Some Approved, Some Approved]
         \<and> balance (accounts (snd (run rt io [0, 1, 0, 1, 0, 1] ([Start req1, Start req2], w))) ! i)
           = (if js_sub (balance a) (ToNumber rt (q_amount req2)) = balance a
              then js_sub (balance a) (ToNumber rt (q_amount req1))
              else js_sub (balance a) (ToNumber rt (q_amount req2)))"
proof -
  from assms(1) have ia: "i < length (accounts w)" "accounts w ! i = a"
    using findOne_Some unfolding reaches_decision_def by fast+
  let ?A1 = "ToNumber rt (q_amount req1)" and ?A2 = "ToNumber rt (q_amount req2)"
  let ?a1 = "a\<lparr>balance := js_sub (balance a) ?A1\<rparr>"
  let ?a2 = "a\<lparr>balance := js_sub (balance a) ?A2\<rparr>"
  from assms have s1: "step rt io (Start req1) w = (Loaded req1 i a, w)"
    and s2: "step rt io (Start req2) w = (Loaded req2 i a, w)"
    by (auto simp: reaches_decision_def)
  from assms have s3: "step rt io (Loaded req1 i a) w
      = (Settled req1 ?a1 Approved, save i a ?a1 w)"
    by (simp add: reaches_decision_def js_le_def Let_def)
  from assms have s4: "step rt io (Loaded req2 i a) w' = (Settled req2 ?a2 Approved, save i a ?a2 w')"
    for w'
    by (simp add: reaches_decision_def js_le_def Let_def)
  have s5: "task_status (fst (step rt io (Settled req acc Approved) w')) = Some Approved"
    "accounts (snd (step rt io (Settled req acc Approved) w')) = accounts w'" for req acc w'
    by (simp_all add: Let_def)
  have bal: "balance (accounts (save i a ?a2 (save i a ?a1 w)) ! i)
      = (if js_sub (balance a) ?A2 = balance a then js_sub (balance a) ?A1
         else js_sub (balance a) ?A2)"
    using ia by (rule save_twice_balance)
  have "run rt io [0, 1, 0, 1, 0, 1] ([Start req1, Start req2], w)
      = (let w2 = save i a ?a2 (save i a ?a1 w);
             c1 = step rt io (Settled req1 ?a1 Approved) w2;
             c2 = step rt io (Settled req2 ?a2 Approved) (snd c1)
         in ([fst c1, fst c2], snd c2))"
    by (simp add: s1 s2 s3 s4 Let_def split_beta del: step.simps)
  with s5 bal show ?thesis
    by (simp add: Let_def del: step.simps)
qed

text \<open>
  Two payments of 80 on a balance of 100: both are approved, 20 is stored and each
  records its 80, although 80 + 80 exceeds 100. One after the other, the second is
  declined.
\<close>

theorem overlapping_payments_overdraw_witness:
  "reaches_decision sample_runtime io_ok (sample_payment 80) (sample_world 100) 0
     (sample_account 100)
   \<and> save_ok io_ok
   \<and> js_le (ToNumber sample_runtime (q_amount (sample_payment 80))) (balance (sample_account 100))
   \<and> js_gt (js_add (Fin 80) (Fin 80)) (balance (sample_account 100))
   \<and> map task_status (fst (run sample_runtime io_ok [0, 1, 0, 1, 0, 1]
       ([Start (sample_payment 80), Start (sample_payment 80)], sample_world 100)))
     = [Some Approved, Some Approved]
   \<and> map balance (accounts (snd (run sample_runtime io_ok [0, 1, 0, 1, 0, 1]
       ([Start (sample_payment 80), Start (sample_payment 80)], sample_world 100))))
     = [Fin 20]
   \<and> map tx_amount (transactions (snd (run sample_runtime io_ok [0, 1, 0, 1, 0, 1]
       ([Start (sample_payment 80), Start (sample_payment 80)], sample_world 100))))
     = [Fin 80, Fin 80]
   \<and> map task_status (fst (run sample_runtime io_ok [0, 0, 0, 1, 1, 1]
       ([Start (sample_payment 80), Start (sample_payment 80)], sample_world 100)))
     = [Some Approved, Some Declined]"
proof -
  let ?both = "run sample_runtime io_ok [0, 1, 0, 1, 0, 1]
       ([Start (sample_payment 80), Start (sample_payment 80)], sample_world 100)"
  have h1: "reaches_decision sample_runtime io_ok (sample_payment 80) (sample_world 100) 0
     (sample_account 100)"
    by (simp add: reaches_decision_def sample_defs js_def)
  have h2: "save_ok io_ok" by (simp add: sample_defs)
  have h3: "js_le (ToNumber sample_runtime (q_amount (sample_payment 80)))
      (balance (sample_account 100))"
    by (simp add: sample_defs js_le_def)
  have h4: "js_gt (js_add (Fin 80) (Fin 80)) (balance (sample_account 100))"
    by (simp add: sample_defs)
  from overlapping_payments_overdraw [OF h1 h1 h2 h3 h3]
  have c1: "map task_status (fst ?both) = [Some Approved, Some Approved]" by simp
  have c2: "map balance (accounts (snd ?both)) = [Fin 20]"
    and c3: "map tx_amount (transactions (snd ?both)) = [Fin 80, Fin 80]"
    by (simp_all add: sample_defs Let_def save_def registerTransaction_def js_def js_le_def
        js_sub_def)
  have c4: "map task_status (fst (run sample_runtime io_ok [0, 0, 0, 1, 1, 1]
       ([Start (sample_payment 80), Start (sample_payment 80)], sample_world 100)))
     = [Some Approved, Some Declined]"
    by (simp add: sample_defs Let_def save_def registerTransaction_def js_def js_le_def
        js_sub_def)
  from h1 h2 h3 h4 c1 c2 c3 c4 show ?thesis by simp
qed

section \<open>Balances that stay at or above zero\<close>

text \<open>
  The paths that do guard the balance. A payment by account number never stores a
  balance below zero, whatever the schedule of the tasks; neither does a card payment,
  nor an adjustment that sets the balance.
\<close>

lemma js_sub_nonnegative:
  assumes "isFinite x" and "\<not> js_gt x b" and "js_ge b (Fin 0)"
  shows "js_ge (js_sub b x) (Fin 0)"
proof -
  from assms(1) obtain p where x: "x = Fin p" by (cases x) simp_all
  show ?thesis
  proof (cases b)
    case (Fin q)
    with assms(2) x have "0 \<le> q + - p" by simp
    from round64_nonneg [OF this] Fin x show ?thesis
      by (auto simp: js_sub_def js_ge_def js_le_def)
  next
    case PosInf
    with x show ?thesis by (simp add: js_sub_def js_ge_def js_le_def)
  next
    case NegInf
    with assms(3) show ?thesis by (simp add: js_ge_def js_le_def)
  next
    case NaN
    with assms(3) show ?thesis by (simp add: js_ge_def js_le_def)
  qed
qed

lemma save_nonnegative:
  assumes "nonnegative w" and "js_ge (balance doc) (Fin 0)"
  shows "nonnegative (save i loaded doc w)"
proof -
  have "js_ge (balance x) (Fin 0)" if "x \<in> set (accounts (save i loaded doc w))" for x
  proof (cases "i < length (accounts w)")
    case True
    with assms(1) have "js_ge (balance (accounts w ! i)) (Fin 0)"
      by (simp add: nonnegative_def)
    with that assms show ?thesis
      by (auto simp: save_def Let_def nonnegative_def split: if_splits
          dest!: set_update_subset_insert [THEN subsetD])
  next
    case False
    then have "length (accounts w) \<le> i" by simp
    then have "(accounts w)[i := y] = accounts w" for y
      by (rule list_update_beyond)
    with that assms(1) show ?thesis
      by (simp add: save_def Let_def nonnegative_def)
  qed
  then show ?thesis by (simp add: nonnegative_def)
qed

lemma registerTransaction_nonnegative [simp]:
  "nonnegative (registerTransaction io e w) = nonnegative w"
  by (simp add: nonnegative_def)

lemma console_error_nonnegative [simp]:
  "nonnegative (console_error e w) = nonnegative w"
  by (simp add: nonnegative_def)

lemma step_nonnegative:
  assumes "nonnegative w" and "task_nonnegative t"
  shows "nonnegative (snd (step rt io t w)) \<and> task_nonnegative (fst (step rt io t w))"
proof (cases t)
  case (Start req)
  show ?thesis
  proof (cases "findOne (\<lambda>a. accountNumber a = ToString rt (q_accountNumber req)) (accounts w)")
    case None
    with assms Start show ?thesis by simp
  next
    case (Some p)
    obtain i a where p: "p = (i, a)" by (cases p)
    from Some p have "a \<in> set (accounts w)"
      using findOne_Some [of _ "accounts w" i a] by (metis nth_mem)
    with assms(1) have "js_ge (balance a) (Fin 0)"
      by (simp add: nonnegative_def)
    with assms Start Some p show ?thesis by simp
  qed
next
  case (Loaded req i loaded)
  with assms show ?thesis
    by (auto simp: Let_def intro!: save_nonnegative js_sub_nonnegative)
next
  case (Settled req account status)
  with assms show ?thesis by (simp add: Let_def)
next
  case (Finished r)
  with assms show ?thesis by simp
qed

lemma run_nonnegative:
  assumes "nonnegative w" and "list_all task_nonnegative ts"
  shows "nonnegative (snd (run rt io ks (ts, w)))
         \<and> list_all task_nonnegative (fst (run rt io ks (ts, w)))"
  using assms
proof (induction ks arbitrary: ts w)
  case Nil
  then show ?case by simp
next
  case (Cons k ks)
  show ?case
  proof (cases "k < length ts")
    case False
    with Cons show ?thesis by simp
  next
    case True
    obtain t w' where st: "step rt io (ts ! k) w = (t, w')"
      by (cases "step rt io (ts ! k) w")
    from True Cons.prems(2) have "task_nonnegative (ts ! k)"
      by (simp add: list_all_length)
    from step_nonnegative [OF Cons.prems(1) this, of rt io] st
    have w': "nonnegative w'" and t: "task_nonnegative t" by simp_all
    from t Cons.prems(2) have "list_all task_nonnegative (ts[k := t])"
      by (auto simp: list_all_iff dest!: set_update_subset_insert [THEN subsetD])
    from Cons.IH [OF w' this] True st show ?thesis by simp
  qed
qed


lemma post_payments_nonnegative:
  assumes "nonnegative w"
  shows "nonnegative (snd (post_payments rt io req w))"
proof -
  obtain t1 w1 where s1: "step rt io (Start req) w = (t1, w1)"
    by (cases "step rt io (Start req) w")
  obtain t2 w2 where s2: "step rt io t1 w1 = (t2, w2)"
    by (cases "step rt io t1 w1")
  from step_nonnegative [OF assms, of "Start req" rt io] s1
  have n1: "nonnegative w1" "task_nonnegative t1" by simp_all
  from step_nonnegative [OF n1, of rt io] s2
  have n2: "nonnegative w2" "task_nonnegative t2" by simp_all
  from step_nonnegative [OF n2, of rt io]
  have "nonnegative (snd (run_alone rt io req w))"
    by (simp add: run_alone_def s1 s2 del: step.simps)
  then show ?thesis by (simp add: run_alone_post_payments)
qed

lemma post_payments_card_nonnegative:
  assumes "nonnegative w"
  shows "nonnegative (snd (post_payments_card rt io req w))"
proof (cases "findOne (\<lambda>a. cardNumber (card_info a) = cleanCardNumber rt (c_cardNumber req))
                (accounts w)")
  case None
  with assms show ?thesis
    by (simp add: post_payments_card_def)
next
  case (Some p)
  obtain i a where p: "p = (i, a)" by (cases p)
  from Some p have "a \<in> set (accounts w)"
    using findOne_Some [of _ "accounts w" i a] by (metis nth_mem)
  with assms have "js_ge (balance a) (Fin 0)"
    by (simp add: nonnegative_def)
  with assms Some p show ?thesis
    by (auto simp: post_payments_card_def Let_def intro!: save_nonnegative js_sub_nonnegative)
qed

lemma patch_account_set_nonnegative:
  assumes "nonnegative w" and "u_balance req \<noteq> JUndefined"
  shows "nonnegative (snd (patch_account rt io accountNo req w))"
proof -
  have ge: "js_ge x (Fin 0)" if "isFinite x" "\<not> js_lt x (Fin 0)" for x
    using that by (cases x) (simp_all add: js_ge_def js_le_def js_lt_def)
  from assms show ?thesis
    by (auto simp: patch_account_def Let_def split: option.splits sum.splits
        intro!: save_nonnegative ge)
qed

end
